theory Spec2Isabelle
  imports Complex_Main "HOL-Library.Sublist"
begin

section \<open>Zone counting and periodic persistence (track\_box.py)\<close>

text \<open>
  A shallow embedding of \<^verbatim>\<open>src/components/features/track_box.py\<close> (classes
  \<^verbatim>\<open>Box\<close> and \<^verbatim>\<open>TrackBox\<close>) and of \<^verbatim>\<open>tuple_handler\<close> from
  \<^verbatim>\<open>src/modules/utils.py\<close>.

  Conventions of the embedding:
  \<^item> Python integers are \<^typ>\<open>int\<close>; coordinates are integers.
  \<^item> A Python float is a real number or NaN. The floats that occur are quotients of
    integers (\<^verbatim>\<open>np.mean\<close> of integer counts, \<^verbatim>\<open>time * speed / fps\<close>); they are
    modelled by the exact quotient, which is what IEEE double arithmetic yields for
    \<^verbatim>\<open>int(q)\<close> and \<^verbatim>\<open>q % n == 0\<close> as long as the integers stay below \<open>2\<^sup>5\<^sup>3\<close>.
  \<^item> A method that mutates \<^verbatim>\<open>self\<close> takes the object and returns the new one. A
    \<^verbatim>\<open>Box\<close> method that raises leaves the box as it was, so it returns
    \<open>py_error + box\<close>. A \<^verbatim>\<open>TrackBox\<close> method touches the file system too and
    may raise half way; it returns the exception (if any) together with the file system
    and the object as they are when the call ends.
  \<^item> The file system is a map from paths to contents. Whether \<^verbatim>\<open>open\<close> succeeds and
    what the wall clock shows are inputs of each call (\<open>env\<close>).
  \<^item> Drawing (\<^verbatim>\<open>apply\<close>, \<^verbatim>\<open>box_config\<close>, \<^verbatim>\<open>text_config\<close>) is left out: it reads
    \<^verbatim>\<open>get_value\<close> and changes no state of the counting engine.
\<close>

subsection \<open>Python values\<close>

datatype py_error = TypeError | ValueError | ZeroDivisionError | OSError | AttributeError

datatype py_float = Float real | NaN

text \<open>\<^verbatim>\<open>int(x)\<close> on a float truncates toward zero; \<^verbatim>\<open>int(nan)\<close> raises ValueError.\<close>

fun py_int :: "py_float \<Rightarrow> py_error + int" where
  "py_int NaN = Inl ValueError"
| "py_int (Float x) = Inr (if 0 \<le> x then \<lfloor>x\<rfloor> else \<lceil>x\<rceil>)"

text \<open>\<^verbatim>\<open>a / b\<close> on integers: true division, ZeroDivisionError when \<open>b = 0\<close>.\<close>

definition truediv :: "int \<Rightarrow> int \<Rightarrow> py_error + real" where
  "truediv a b = (if b = 0 then Inl ZeroDivisionError else Inr (real_of_int a / real_of_int b))"

text \<open>\<^verbatim>\<open>x % n\<close> on a float and an integer: the remainder has the sign of \<open>n\<close>;
  ZeroDivisionError when \<open>n = 0\<close>.\<close>

definition float_mod :: "real \<Rightarrow> int \<Rightarrow> py_error + real" where
  "float_mod x n =
     (if n = 0 then Inl ZeroDivisionError
      else Inr (x - real_of_int n * real_of_int \<lfloor>x / real_of_int n\<rfloor>))"

text \<open>\<^verbatim>\<open>np.mean\<close> of a sequence of integers; NaN on the empty sequence.\<close>

definition np_mean :: "int list \<Rightarrow> py_float" where
  "np_mean a = (if a = [] then NaN else Float (real_of_int (sum_list a) / real (length a)))"

text \<open>\<^verbatim>\<open>str(n)\<close> on an integer: its decimal digits.\<close>

function str_nat :: "nat \<Rightarrow> string" where
  "str_nat n =
     (if n < 10 then [''0123456789'' ! n]
      else str_nat (n div 10) @ [''0123456789'' ! (n mod 10)])"
  by pat_completeness auto
termination
  by (relation "measure id") auto

declare str_nat.simps [simp del]

definition str_int :: "int \<Rightarrow> string" where
  "str_int i = (if i < 0 then CHR ''-'' # str_nat (nat (- i)) else str_nat (nat i))"

text \<open>\<^verbatim>\<open>sep.join(xs)\<close>.\<close>

fun join :: "string \<Rightarrow> string list \<Rightarrow> string" where
  "join sep [] = []"
| "join sep [x] = x"
| "join sep (x # y # ys) = x @ sep @ join sep (y # ys)"

text \<open>\<^verbatim>\<open>collections.deque.append\<close> on a deque with \<^verbatim>\<open>maxlen\<close>: the item is added on the
  right, and when the deque then holds more than \<^verbatim>\<open>maxlen\<close> items the leftmost one is
  dropped (so a deque with \<^verbatim>\<open>maxlen = 0\<close> stays empty).\<close>

definition deque_append :: "nat \<Rightarrow> 'a list \<Rightarrow> 'a \<Rightarrow> 'a list" where
  "deque_append maxlen d x = (let d' = d @ [x] in if maxlen < length d' then tl d' else d')"

subsection \<open>\<^verbatim>\<open>tuple_handler\<close> (utils.py)\<close>

text \<open>The argument \<^verbatim>\<open>value\<close> is an integer or a sequence of integers.\<close>

datatype py_value = PInt int | PSeq "int list"

text \<open>
  \<^verbatim>\<open>max_dim\<close> is an \<^verbatim>\<open>int\<close>, so \<^verbatim>\<open>not isinstance(max_dim, int) and max_dim > 1\<close> is
  false and the first TypeError is never raised. A \<open>PSeq\<close> always converts to a tuple,
  so the second TypeError is not raised either.
\<close>

definition tuple_handler :: "py_value \<Rightarrow> int \<Rightarrow> py_error + int list" where
  "tuple_handler val max_dim =
     (if \<not> True \<and> 1 < max_dim then Inl TypeError
      else
        let output = (case val of PInt v \<Rightarrow> replicate (nat max_dim) v | PSeq vs \<Rightarrow> vs)
        in if int (length output) \<noteq> max_dim then Inl ValueError else Inr output)"

subsection \<open>\<^verbatim>\<open>class Box\<close>\<close>

record box =
  name :: string
  xyxy :: "int \<times> int \<times> int \<times> int"
  maxlen :: nat
  history :: "int list"
  count :: int

text \<open>\<^verbatim>\<open>Box.__init__\<close>: \<^verbatim>\<open>deque([], maxlen=smoothness)\<close> raises ValueError on a
  negative \<^verbatim>\<open>maxlen\<close>.\<close>

definition Box_init :: "string \<Rightarrow> int \<times> int \<Rightarrow> int \<times> int \<Rightarrow> int \<Rightarrow> py_error + box" where
  "Box_init nm top_left bottom_right smoothness =
     (if smoothness < 0 then Inl ValueError
      else Inr \<lparr>name = nm,
                xyxy = (fst top_left, snd top_left, fst bottom_right, snd bottom_right),
                maxlen = nat smoothness,
                history = [],
                count = 0\<rparr>)"

text \<open>\<^verbatim>\<open>Box.check\<close>.\<close>

definition Box_check :: "box \<Rightarrow> py_value \<Rightarrow> py_error + box" where
  "Box_check self pos =
     (case xyxy self of (x1, y1, x2, y2) \<Rightarrow>
        (case tuple_handler pos 2 of
           Inl e \<Rightarrow> Inl e
         | Inr out \<Rightarrow>
             (case out of
                [X, Y] \<Rightarrow>
                  if (x1 \<le> X \<and> X \<le> x2) \<and> (y1 \<le> Y \<and> Y \<le> y2)
                  then Inr (self\<lparr>count := count self + 1\<rparr>)
                  else Inr self
              | _ \<Rightarrow> Inl ValueError)))"

text \<open>\<^verbatim>\<open>Box.update\<close>.\<close>

definition Box_update :: "box \<Rightarrow> box" where
  "Box_update self =
     self\<lparr>history := deque_append (maxlen self) (history self) (count self), count := 0\<rparr>"

text \<open>\<^verbatim>\<open>Box.get_value\<close>: \<^verbatim>\<open>int(np.mean(self.history))\<close>.\<close>

definition get_value :: "box \<Rightarrow> py_error + int" where
  "get_value self = py_int (np_mean (history self))"

text \<open>The operations a caller performs on one box, and a box driven through a
  sequence of them. A \<^verbatim>\<open>check\<close> that raises leaves the box as it was.\<close>

datatype box_op = BCheck py_value | BUpdate

fun box_step :: "box \<Rightarrow> box_op \<Rightarrow> box" where
  "box_step b (BCheck pos) = (case Box_check b pos of Inl e \<Rightarrow> b | Inr b' \<Rightarrow> b')"
| "box_step b BUpdate = Box_update b"

definition box_run :: "box \<Rightarrow> box_op list \<Rightarrow> box" where
  "box_run b ops = foldl box_step b ops"

text \<open>One frame of one box: a \<^verbatim>\<open>check\<close> for each position, then one \<^verbatim>\<open>update\<close>.\<close>

fun checks :: "box \<Rightarrow> py_value list \<Rightarrow> py_error + box" where
  "checks b [] = Inr b"
| "checks b (p # ps) = (case Box_check b p of Inl e \<Rightarrow> Inl e | Inr b' \<Rightarrow> checks b' ps)"

definition frame :: "box \<Rightarrow> py_value list \<Rightarrow> py_error + box" where
  "frame b ps = (case checks b ps of Inl e \<Rightarrow> Inl e | Inr b' \<Rightarrow> Inr (Box_update b'))"

subsection \<open>\<^verbatim>\<open>class TrackBox\<close>\<close>

text \<open>The dictionary \<^verbatim>\<open>save_conf\<close>.\<close>

record save_config =
  save_path :: string
  interval :: int
  fps :: int
  speed :: int
  camera :: bool

text \<open>The attributes \<^verbatim>\<open>time\<close> and \<^verbatim>\<open>save_conf\<close> exist only once
  \<^verbatim>\<open>config_save\<close> has set them: \<open>None\<close> is an attribute that is not there.\<close>

record trackbox =
  boxes :: "box list"
  time :: "int option"
  save_conf :: "save_config option"

text \<open>One entry of the constructor's \<^verbatim>\<open>boxes\<close> argument (the keys of the dictionary
  that reach the counting engine).\<close>

record box_entry =
  entry_name :: string
  top_left :: "int \<times> int"
  bottom_right :: "int \<times> int"
  smoothness :: int

text \<open>\<^verbatim>\<open>TrackBox.new\<close>.\<close>

definition new :: "box_entry \<Rightarrow> py_error + box" where
  "new config =
     Box_init (entry_name config) (top_left config) (bottom_right config) (smoothness config)"

text \<open>\<^verbatim>\<open>TrackBox.__init__\<close>: the list comprehension stops at the first entry whose
  box cannot be built.\<close>

fun new_all :: "box_entry list \<Rightarrow> py_error + box list" where
  "new_all [] = Inr []"
| "new_all (c # cs) =
     (case new c of
        Inl e \<Rightarrow> Inl e
      | Inr b \<Rightarrow> (case new_all cs of Inl e \<Rightarrow> Inl e | Inr bs \<Rightarrow> Inr (b # bs)))"

definition TrackBox_init :: "box_entry list \<Rightarrow> py_error + trackbox" where
  "TrackBox_init entries =
     (case new_all entries of
        Inl e \<Rightarrow> Inl e
      | Inr bs \<Rightarrow> Inr \<lparr>boxes = bs, time = None, save_conf = None\<rparr>)"

text \<open>The file system, and what one call receives from the outside: whether
  \<^verbatim>\<open>open\<close> succeeds, and the wall clock (hour, minute, second).\<close>

type_synonym fs = "string \<Rightarrow> string option"

record env =
  open_ok :: bool
  now :: "nat \<times> nat \<times> nat"

definition content :: "fs \<Rightarrow> string \<Rightarrow> string" where
  "content files path = (case files path of None \<Rightarrow> [] | Some c \<Rightarrow> c)"

text \<open>\<^verbatim>\<open>datetime.now().strftime("%H:%M:%S")\<close>.\<close>

definition pad2 :: "nat \<Rightarrow> string" where
  "pad2 n = [''0123456789'' ! (n div 10 mod 10), ''0123456789'' ! (n mod 10)]"

definition strftime_HMS :: "nat \<times> nat \<times> nat \<Rightarrow> string" where
  "strftime_HMS t = (case t of (h, m, s) \<Rightarrow> pad2 h @ '':'' @ pad2 m @ '':'' @ pad2 s)"

text \<open>\<^verbatim>\<open>TrackBox.check\<close>: the list comprehension stops at the first box that
  raises.\<close>

fun check_boxes :: "box list \<Rightarrow> py_value \<Rightarrow> py_error option \<times> box list" where
  "check_boxes [] pos = (None, [])"
| "check_boxes (b # bs) pos =
     (case Box_check b pos of
        Inl e \<Rightarrow> (Some e, b # bs)
      | Inr b' \<Rightarrow> (case check_boxes bs pos of (e, bs') \<Rightarrow> (e, b' # bs')))"

definition TrackBox_check :: "trackbox \<Rightarrow> py_value \<Rightarrow> py_error option \<times> trackbox" where
  "TrackBox_check self pos =
     (case check_boxes (boxes self) pos of (e, bs) \<Rightarrow> (e, self\<lparr>boxes := bs\<rparr>))"

text \<open>The header line and a data row, as the f-strings build them.\<close>

definition header_line :: "bool \<Rightarrow> box list \<Rightarrow> string" where
  "header_line cam bs =
     (if cam then ''time'' else ''second'') @ '','' @ join '','' (map name bs) @ [CHR 0x0A]"

definition row_line :: "string \<Rightarrow> int list \<Rightarrow> string" where
  "row_line time_format vals = time_format @ '','' @ join '','' (map str_int vals) @ [CHR 0x0A]"

text \<open>\<^verbatim>\<open>TrackBox.config_save\<close>: \<^verbatim>\<open>open(save_path, "w")\<close> truncates the file.\<close>

definition config_save ::
  "env \<Rightarrow> fs \<Rightarrow> trackbox \<Rightarrow> string \<Rightarrow> int \<Rightarrow> int \<Rightarrow> int \<Rightarrow> bool
     \<Rightarrow> py_error option \<times> fs \<times> trackbox" where
  "config_save e files self path intvl fps' speed' cam =
     (if \<not> open_ok e then (Some OSError, files, self)
      else
        (None,
         files(path \<mapsto> header_line cam (boxes self)),
         self\<lparr>time := Some 0,
              save_conf := Some \<lparr>save_path = path, interval = intvl, fps = fps',
                                 speed = max 1 speed', camera = cam\<rparr>\<rparr>))"

text \<open>The generator \<^verbatim>\<open>str(box.get_value()) for box in self.boxes\<close>: the first
  \<^verbatim>\<open>get_value\<close> that raises ends it.\<close>

fun get_values :: "box list \<Rightarrow> py_error + int list" where
  "get_values [] = Inr []"
| "get_values (b # bs) =
     (case get_value b of
        Inl e \<Rightarrow> Inl e
      | Inr v \<Rightarrow> (case get_values bs of Inl e \<Rightarrow> Inl e | Inr vs \<Rightarrow> Inr (v # vs)))"

text \<open>
  \<^verbatim>\<open>TrackBox.save\<close>. \<^verbatim>\<open>int(self.time * speed)\<close> is the integer product itself.
  \<^verbatim>\<open>self.time != 0 and (current % interval) == 0\<close> evaluates the remainder only when
  \<^verbatim>\<open>time\<close> is not 0. \<^verbatim>\<open>open(path, "a")\<close> creates a missing file; the row is built
  (and \<^verbatim>\<open>get_value\<close> may raise) after the file is open and before anything is
  written.
\<close>

definition save :: "env \<Rightarrow> fs \<Rightarrow> trackbox \<Rightarrow> py_error option \<times> fs \<times> trackbox" where
  "save e files self =
     (case time self of
        None \<Rightarrow> (Some AttributeError, files, self)
      | Some t \<Rightarrow>
     (case save_conf self of
        None \<Rightarrow> (Some AttributeError, files, self)
      | Some conf \<Rightarrow>
     (case truediv (t * speed conf) (fps conf) of
        Inl err \<Rightarrow> (Some err, files, self)
      | Inr current \<Rightarrow>
     (case (if t \<noteq> 0
            then (case float_mod current (interval conf) of
                    Inl err \<Rightarrow> Inl err
                  | Inr r \<Rightarrow> Inr (r = 0))
            else Inr False) of
        Inl err \<Rightarrow> (Some err, files, self)
      | Inr due \<Rightarrow>
          if \<not> due then (None, files, self)
          else if \<not> open_ok e then (Some OSError, files, self)
          else
            let files1 = files(save_path conf \<mapsto> content files (save_path conf));
                time_format =
                  (if camera conf then Inr (strftime_HMS (now e))
                   else (case py_int (Float current) of
                           Inl err \<Rightarrow> Inl err
                         | Inr sec \<Rightarrow> Inr (str_int sec)))
            in
              (case time_format of
                 Inl err \<Rightarrow> (Some err, files1, self)
               | Inr stamp \<Rightarrow>
              (case get_values (boxes self) of
                 Inl err \<Rightarrow> (Some err, files1, self)
               | Inr vals \<Rightarrow>
                   (None,
                    files1(save_path conf \<mapsto>
                      content files1 (save_path conf) @ row_line stamp vals),
                    if camera conf then self\<lparr>time := Some 0\<rparr> else self)))))))"

text \<open>\<^verbatim>\<open>TrackBox.update\<close>: \<^verbatim>\<open>hasattr(self, "save_conf")\<close> is the test for
  persistence; when \<^verbatim>\<open>save\<close> raises, \<^verbatim>\<open>self.time += 1\<close> is not reached.\<close>

definition TrackBox_update :: "env \<Rightarrow> fs \<Rightarrow> trackbox \<Rightarrow> py_error option \<times> fs \<times> trackbox" where
  "TrackBox_update e files self =
     (let self1 = self\<lparr>boxes := map Box_update (boxes self)\<rparr> in
      case save_conf self1 of
        None \<Rightarrow> (None, files, self1)
      | Some conf \<Rightarrow>
          (case save e files self1 of
             (Some err, files', self2) \<Rightarrow> (Some err, files', self2)
           | (None, files', self2) \<Rightarrow>
               (case time self2 of
                  None \<Rightarrow> (Some AttributeError, files', self2)
                | Some t \<Rightarrow> (None, files', self2\<lparr>time := Some (t + 1)\<rparr>))))"

text \<open>The calls a client makes on a \<^verbatim>\<open>TrackBox\<close>, each with what the outside
  supplies to it, and a \<^verbatim>\<open>TrackBox\<close> driven through a sequence of them. A call that
  raises leaves the object as the exception found it, and the client goes on.\<close>

datatype tb_op =
    Check py_value
  | Update
  | ConfigSave string int int int bool
  | Save

fun tb_step :: "fs \<times> trackbox \<Rightarrow> env \<times> tb_op \<Rightarrow> fs \<times> trackbox" where
  "tb_step (files, self) (e, Check pos) = (files, snd (TrackBox_check self pos))"
| "tb_step (files, self) (e, Update) = snd (TrackBox_update e files self)"
| "tb_step (files, self) (e, ConfigSave path intvl fps' speed' cam) =
     snd (config_save e files self path intvl fps' speed' cam)"
| "tb_step (files, self) (e, Save) = snd (save e files self)"

definition tb_run :: "fs \<Rightarrow> trackbox \<Rightarrow> (env \<times> tb_op) list \<Rightarrow> fs \<times> trackbox" where
  "tb_run files self calls = foldl tb_step (files, self) calls"

text \<open>A sequence of \<^verbatim>\<open>update()\<close> ticks, one per element of the list.\<close>

definition ticks :: "fs \<Rightarrow> trackbox \<Rightarrow> env list \<Rightarrow> fs \<times> trackbox" where
  "ticks files self es = tb_run files self (map (\<lambda>e. (e, Update)) es)"

text \<open>A row was appended to the file at \<open>path\<close>: the old content is a proper prefix
  of the new one.\<close>

definition row_written :: "fs \<Rightarrow> fs \<Rightarrow> string \<Rightarrow> bool" where
  "row_written files files' path = strict_prefix (content files path) (content files' path)"

subsection \<open>The specification's wording\<close>

text \<open>The truncated integer mean, as the specification words it: the mean of the
  sequence rounded toward zero, computed on integers.\<close>

definition truncated_mean :: "int list \<Rightarrow> int" where
  "truncated_mean xs = sgn (sum_list xs) * (\<bar>sum_list xs\<bar> div int (length xs))"

text \<open>Inclusive containment of a point in the rectangle of a zone, and a well-formed
  position: a pair of coordinates.\<close>

definition inside :: "box \<Rightarrow> int \<times> int \<Rightarrow> bool" where
  "inside b p =
     (case xyxy b of (x1, y1, x2, y2) \<Rightarrow>
        x1 \<le> fst p \<and> fst p \<le> x2 \<and> y1 \<le> snd p \<and> snd p \<le> y2)"

definition point :: "int \<times> int \<Rightarrow> py_value" where
  "point p = PSeq [fst p, snd p]"

text \<open>Every zone of a list has a history that is not empty.\<close>

definition nonempty_history :: "box \<Rightarrow> bool" where
  "nonempty_history b = (history b \<noteq> [])"

text \<open>
  The scheduler's trigger, as the specification words it:
  \<open>currentTime = truncate(elapsedFrames \<times> speedMultiplier) / fps\<close> (the product of two
  integers is its own truncation), a real remainder, and a row is due iff
  \<open>elapsedFrames \<noteq> 0\<close> and \<open>currentTime mod intervalSeconds = 0\<close>.
\<close>

definition current_time :: "int \<Rightarrow> int \<Rightarrow> int \<Rightarrow> real" where
  "current_time elapsed sp f = real_of_int (elapsed * sp) / real_of_int f"

definition real_mod :: "real \<Rightarrow> real \<Rightarrow> real" where
  "real_mod x y = x - y * real_of_int \<lfloor>x / y\<rfloor>"

definition write_due :: "int \<Rightarrow> save_config \<Rightarrow> bool" where
  "write_due elapsed c =
     (elapsed \<noteq> 0 \<and>
      real_mod (current_time elapsed (speed c) (fps c)) (real_of_int (interval c)) = 0)"

text \<open>The timestamp field of a row: the wall clock in camera mode, otherwise
  \<open>currentTime\<close> as an integer (a whole number whenever a row is due).\<close>

definition timestamp :: "env \<Rightarrow> save_config \<Rightarrow> int \<Rightarrow> string" where
  "timestamp e c elapsed =
     (if camera c then strftime_HMS (now e) else str_int (elapsed * speed c div fps c))"

text \<open>A zone whose deque can hold something: \<^verbatim>\<open>maxlen\<close> is at least 1.\<close>

definition has_capacity :: "box \<Rightarrow> bool" where
  "has_capacity b = (0 < maxlen b)"

text \<open>The configuration of scenario B, as \<^verbatim>\<open>config_save\<close> stores it for a
  destination \<open>p\<close>: fps 10, speed 1, an interval of 2 seconds, no camera.\<close>

definition scenario_conf :: "string \<Rightarrow> save_config" where
  "scenario_conf p = \<lparr>save_path = p, interval = 2, fps = 10, speed = 1, camera = False\<rparr>"

text \<open>The calls that enable persistence.\<close>

definition is_config_save :: "env \<times> tb_op \<Rightarrow> bool" where
  "is_config_save call =
     (case snd call of ConfigSave path intvl fps' speed' cam \<Rightarrow> True | _ \<Rightarrow> False)"

text \<open>The invariant of the reachable states of a \<^verbatim>\<open>TrackBox\<close>: every zone can
  hold a history entry; \<^verbatim>\<open>time\<close> and \<^verbatim>\<open>save_conf\<close> exist together; \<^verbatim>\<open>time\<close> is not
  negative, and once it is positive a tick has happened, so every history has an entry.\<close>

definition tb_inv :: "trackbox \<Rightarrow> bool" where
  "tb_inv self =
     (list_all has_capacity (boxes self) \<and>
      (case time self of
         None \<Rightarrow> save_conf self = None
       | Some t \<Rightarrow> save_conf self \<noteq> None \<and> 0 \<le> t \<and>
                   (0 < t \<longrightarrow> list_all nonempty_history (boxes self))))"

subsection \<open>Concrete inputs\<close>

definition zoneA :: box where
  "zoneA = \<lparr>name = ''A'', xyxy = (0, 0, 10, 10), maxlen = 3, history = [], count = 0\<rparr>"

definition zoneB :: box where
  "zoneB = \<lparr>name = ''B'', xyxy = (5, 5, 20, 8), maxlen = 2, history = [2, 5], count = 1\<rparr>"

definition opsA :: "box_op list" where
  "opsA = [BCheck (PSeq [1, 1]), BUpdate, BUpdate, BCheck (PInt 4),
      BCheck (PSeq [2, 3]), BUpdate, BCheck (PSeq [11, 0]), BCheck (PSeq [7])]"

text \<open>Four frames of positions inside the rectangle of \<open>zoneA\<close>: 2, 4, 6 and 8 of
  them, corners and edges included.\<close>

definition frame1 :: "(int \<times> int) list" where
  "frame1 = [(0, 0), (10, 10)]"

definition frame2 :: "(int \<times> int) list" where
  "frame2 = [(5, 5), (0, 10), (10, 0), (3, 7)]"

definition frame3 :: "(int \<times> int) list" where
  "frame3 = [(1, 1), (2, 2), (3, 3), (4, 4), (5, 5), (6, 6)]"

definition frame4 :: "(int \<times> int) list" where
  "frame4 = [(0, 5), (10, 5), (5, 0), (5, 10), (9, 9), (1, 9), (9, 1), (5, 5)]"

text \<open>The outside world when \<^verbatim>\<open>open\<close> succeeds and when it fails.\<close>

definition envOK :: env where
  "envOK = \<lparr>open_ok = True, now = (9, 5, 3)\<rparr>"

definition envFail :: env where
  "envFail = \<lparr>open_ok = False, now = (9, 5, 3)\<rparr>"

text \<open>The configuration of scenario B (video time) and of scenario C (camera).\<close>

definition confB :: save_config where
  "confB = \<lparr>save_path = ''out.csv'', interval = 2, fps = 10, speed = 1, camera = False\<rparr>"

definition confC :: save_config where
  "confC = \<lparr>save_path = ''out.csv'', interval = 2, fps = 10, speed = 1, camera = True\<rparr>"

text \<open>A \<^verbatim>\<open>TrackBox\<close> with one zone, persistence enabled, at a given \<^verbatim>\<open>time\<close>.\<close>

definition tbB :: "int \<Rightarrow> trackbox" where
  "tbB t = \<lparr>boxes = [zoneB], time = Some t, save_conf = Some confB\<rparr>"

definition tbC :: "int \<Rightarrow> trackbox" where
  "tbC t = \<lparr>boxes = [zoneB], time = Some t, save_conf = Some confC\<rparr>"

text \<open>A \<^verbatim>\<open>TrackBox\<close> with two zones on which persistence has not been enabled, and a
  file system that holds the header of \<^verbatim>\<open>out.csv\<close>.\<close>

definition tbNew :: trackbox where
  "tbNew = \<lparr>boxes = [zoneA, zoneB], time = None, save_conf = None\<rparr>"

definition filesH :: fs where
  "filesH = Map.empty(''out.csv'' \<mapsto> header_line False [zoneB])"

text \<open>Persistence enabled on a fresh \<^verbatim>\<open>TrackBox\<close>, 21 ticks later (one row has
  been written), and \<^verbatim>\<open>config_save\<close> called a second time then.\<close>

definition enabled1 :: "py_error option \<times> fs \<times> trackbox" where
  "enabled1 = config_save envOK Map.empty tbNew ''out.csv'' 2 10 1 False"

definition ran21 :: "fs \<times> trackbox" where
  "ran21 = ticks (fst (snd enabled1)) (snd (snd enabled1)) (replicate 21 envOK)"

definition enabled2 :: "py_error option \<times> fs \<times> trackbox" where
  "enabled2 = config_save envOK (fst ran21) (snd ran21) ''out.csv'' 2 10 1 False"

text \<open>Two zones built by the constructor, a client that saves, checks, enables
  persistence, saves and then ticks 20 times, and the state reached. Last, a zone with
  smoothness 0: what the constructor builds from it, a client that enables persistence,
  checks a position and ticks 20 times, and the state reached.\<close>

definition entriesAB :: "box_entry list" where
  "entriesAB =
     [\<lparr>entry_name = ''A'', top_left = (0, 0), bottom_right = (10, 10), smoothness = 3\<rparr>,
      \<lparr>entry_name = ''B'', top_left = (5, 5), bottom_right = (20, 8), smoothness = 1\<rparr>]"

definition callsAB :: "(env \<times> tb_op) list" where
  "callsAB =
     (envOK, Save) # (envOK, Check (PInt 6)) # (envOK, ConfigSave ''out.csv'' 2 10 1 False) #
     (envOK, Save) # replicate 20 (envOK, Update)"

definition tbInit :: trackbox where
  "tbInit =
     \<lparr>boxes =
        [\<lparr>name = ''A'', xyxy = (0, 0, 10, 10), maxlen = 3, history = [], count = 0\<rparr>,
         \<lparr>name = ''B'', xyxy = (5, 5, 20, 8), maxlen = 1, history = [], count = 0\<rparr>],
      time = None, save_conf = None\<rparr>"

definition reachedAB :: "fs \<times> trackbox" where
  "reachedAB = tb_run Map.empty tbInit callsAB"

definition entriesZero :: "box_entry list" where
  "entriesZero =
     [\<lparr>entry_name = ''Z'', top_left = (0, 0), bottom_right = (10, 10), smoothness = 0\<rparr>]"

definition tbZero :: trackbox where
  "tbZero =
     \<lparr>boxes = [\<lparr>name = ''Z'', xyxy = (0, 0, 10, 10), maxlen = 0, history = [], count = 0\<rparr>],
      time = None, save_conf = None\<rparr>"

definition callsZero :: "(env \<times> tb_op) list" where
  "callsZero =
     (envOK, ConfigSave ''out.csv'' 2 10 1 False) # (envOK, Check (PSeq [5, 5])) #
     replicate 20 (envOK, Update)"

definition reachedZero :: "fs \<times> trackbox" where
  "reachedZero = tb_run Map.empty tbZero callsZero"

section \<open>Properties of a zone\<close>

subsection \<open>Floats that are quotients of integers\<close>

lemma py_int_quotient:
  assumes "0 < n"
  shows "py_int (Float (real_of_int s / real n)) = Inr (sgn s * (\<bar>s\<bar> div int n))"
proof (cases "0 \<le> s")
  case True
  have "\<lfloor>real_of_int s / real n\<rfloor> = s div int n"
    using floor_divide_of_int_eq [of s "int n", where ?'a = real] by simp
  moreover have "sgn s * (\<bar>s\<bar> div int n) = s div int n"
    using True by (cases "s = 0") (simp_all add: sgn_if)
  moreover have "0 \<le> real_of_int s / real n" using True assms by simp
  ultimately show ?thesis by simp
next
  case False
  then have neg: "s < 0" by simp
  have "real_of_int s / real n < 0" using neg assms by (simp add: divide_neg_pos)
  moreover have "\<lceil>real_of_int s / real n\<rceil> = - ((- s) div int n)"
  proof -
    have "\<lceil>real_of_int s / real n\<rceil> = - \<lfloor>real_of_int (- s) / real_of_int (int n)\<rfloor>"
      by (simp add: ceiling_def)
    also have "\<dots> = - ((- s) div int n)"
      by (simp only: floor_divide_of_int_eq)
    finally show ?thesis .
  qed
  moreover have "sgn s * (\<bar>s\<bar> div int n) = - ((- s) div int n)"
    using neg by (simp add: sgn_if)
  ultimately show ?thesis by simp
qed

lemma get_value_nonempty:
  "history self \<noteq> [] \<Longrightarrow> get_value self = Inr (truncated_mean (history self))"
  using py_int_quotient [of "length (history self)" "sum_list (history self)"]
  by (simp add: get_value_def np_mean_def truncated_mean_def)

lemma get_value_empty: "history self = [] \<Longrightarrow> get_value self = Inl ValueError"
  by (simp add: get_value_def np_mean_def)

lemma truncated_mean_toward_zero:
  "truncated_mean [- 3, 0] = - 1 \<and> truncated_mean [3, 0] = 1 \<and> truncated_mean [2, 4] = 3"
  by (simp add: truncated_mean_def)

lemma truncated_mean_nonneg:
  "0 \<le> sum_list xs \<Longrightarrow> truncated_mean xs = sum_list xs div int (length xs)"
  by (cases "sum_list xs = 0") (simp_all add: truncated_mean_def sgn_if)

subsection \<open>C1: the smoothed value\<close>

text \<open>
  Claim C1 says that \<^verbatim>\<open>value()\<close> is the truncated integer mean of the history and
  that it is 0 on an empty history. The second half fails on the code: \<^verbatim>\<open>get_value\<close>
  has no guard, \<^verbatim>\<open>np.mean\<close> of an empty deque is NaN and \<^verbatim>\<open>int(nan)\<close> raises
  ValueError. A freshly built zone (empty history) shows it.
\<close>

theorem get_value_empty_history_counterexample:
  "Box_init ''A'' (0, 0) (10, 10) 3 = Inr zoneA \<and> history zoneA = [] \<and>
   get_value zoneA \<noteq> Inr 0 \<and> get_value zoneA = Inl ValueError"
  by (simp add: Box_init_def zoneA_def get_value_def np_mean_def)

text \<open>
  C1 as amended: for every zone whose history is not empty, \<^verbatim>\<open>get_value\<close> returns
  the mean of the history truncated toward zero; for a zone whose history is empty it
  raises ValueError and returns nothing.
\<close>

theorem get_value_truncated_mean:
  "(history self \<noteq> [] \<longrightarrow> get_value self = Inr (truncated_mean (history self))) \<and>
   (history self = [] \<longrightarrow> get_value self = Inl ValueError)"
  by (simp add: get_value_nonempty get_value_empty)

theorem get_value_truncated_mean_witness:
  "history zoneB \<noteq> [] \<and> get_value zoneB = Inr 3 \<and> truncated_mean (history zoneB) = 3 \<and>
   history zoneA = [] \<and> get_value zoneA = Inl ValueError"
  using get_value_truncated_mean [of zoneB] get_value_truncated_mean [of zoneA]
  by (simp add: zoneA_def zoneB_def truncated_mean_def)

subsection \<open>C7: inclusive containment\<close>

text \<open>
  Claim C7: for every zone with rectangle \<open>(x1, y1, x2, y2)\<close> and every well-formed
  position \<open>(X, Y)\<close>, \<^verbatim>\<open>check\<close> returns normally; it adds exactly 1 to the zone's
  \<^verbatim>\<open>count\<close> when \<open>x1 \<le> X \<le> x2\<close> and \<open>y1 \<le> Y \<le> y2\<close>, leaving every other field as
  it was, and leaves the whole zone unchanged otherwise.
\<close>

theorem Box_check_inclusive:
  assumes "xyxy self = (x1, y1, x2, y2)"
  shows "Box_check self (PSeq [X, Y]) =
           Inr (if x1 \<le> X \<and> X \<le> x2 \<and> y1 \<le> Y \<and> Y \<le> y2
                then self\<lparr>count := count self + 1\<rparr> else self)"
  using assms by (simp add: Box_check_def tuple_handler_def)

theorem Box_check_inclusive_witness:
  "xyxy zoneB = (5, 5, 20, 8) \<and>
   Box_check zoneB (PSeq [20, 5]) = Inr (zoneB\<lparr>count := 2\<rparr>) \<and>
   Box_check zoneB (PSeq [21, 5]) = Inr zoneB \<and>
   Box_check zoneB (PSeq [5, 9]) = Inr zoneB"
  using Box_check_inclusive [of zoneB 5 5 20 8 20 5]
    Box_check_inclusive [of zoneB 5 5 20 8 21 5]
    Box_check_inclusive [of zoneB 5 5 20 8 5 9]
  by (simp add: zoneB_def)

subsection \<open>The bounded history\<close>

lemma deque_append_length: "length d \<le> m \<Longrightarrow> length (deque_append m d x) \<le> m"
  by (simp add: deque_append_def Let_def)

lemma deque_append_evict:
  "0 < m \<Longrightarrow> length d \<le> m \<Longrightarrow>
     deque_append m d x = (if length d = m then tl d else d) @ [x]"
  by (cases d) (auto simp add: deque_append_def Let_def)

lemma deque_append_nonempty: "0 < m \<Longrightarrow> deque_append m d x \<noteq> []"
  by (cases d) (auto simp add: deque_append_def Let_def)

lemma Box_check_cases:
  "Box_check b pos = Inr b' \<Longrightarrow> b' = b \<or> b' = b\<lparr>count := count b + 1\<rparr>"
  by (auto simp add: Box_check_def split: prod.splits sum.splits list.splits if_splits)

lemma box_step_maxlen: "maxlen (box_step b op) = maxlen b"
  by (cases op) (auto simp add: Box_update_def dest: Box_check_cases split: sum.splits)

lemma box_step_history_bound:
  "length (history b) \<le> maxlen b \<Longrightarrow> length (history (box_step b op)) \<le> maxlen b"
  by (cases op)
    (auto simp add: Box_update_def deque_append_length dest: Box_check_cases split: sum.splits)

lemma box_run_bound:
  "length (history b) \<le> maxlen b \<Longrightarrow>
     maxlen (box_run b ops) = maxlen b \<and> length (history (box_run b ops)) \<le> maxlen b"
proof (induction ops arbitrary: b)
  case Nil
  then show ?case by (simp add: box_run_def)
next
  case (Cons op ops)
  have "length (history (box_step b op)) \<le> maxlen (box_step b op)"
    using Cons.prems by (simp add: box_step_maxlen box_step_history_bound)
  from Cons.IH [OF this] show ?case
    by (simp add: box_run_def box_step_maxlen)
qed

subsection \<open>C9: the history never exceeds the smoothness\<close>

text \<open>
  Claim C9: for every zone constructed with \<open>smoothness \<ge> 1\<close> and every sequence of
  \<^verbatim>\<open>check\<close> and \<^verbatim>\<open>update\<close> calls, the history holds at most \<open>smoothness\<close> entries
  (in the state reached, and again after one more \<^verbatim>\<open>update\<close>, hence after every
  \<^verbatim>\<open>update\<close>); \<^verbatim>\<open>update\<close> appends the current count, dropping the oldest entry when
  the history is at capacity, and resets the count to 0.
\<close>

theorem history_bounded:
  assumes "Box_init nm tl' br s = Inr b0" and "1 \<le> s"
  shows "length (history (box_run b0 ops)) \<le> nat s \<and>
         length (history (Box_update (box_run b0 ops))) \<le> nat s \<and>
         Box_update (box_run b0 ops) =
           (box_run b0 ops)\<lparr>history :=
              (if length (history (box_run b0 ops)) = nat s
               then tl (history (box_run b0 ops)) else history (box_run b0 ops))
              @ [count (box_run b0 ops)],
             count := 0\<rparr>"
proof -
  from assms have b0: "maxlen b0 = nat s" "history b0 = []"
    by (auto simp add: Box_init_def split: if_splits)
  then have "length (history b0) \<le> maxlen b0" by simp
  from box_run_bound [OF this, of ops] b0
  have m: "maxlen (box_run b0 ops) = nat s" and l: "length (history (box_run b0 ops)) \<le> nat s"
    by simp_all
  have pos: "0 < nat s" using assms(2) by simp
  show ?thesis
    using l m pos deque_append_evict [OF pos l] deque_append_length [OF l]
    by (simp add: Box_update_def)
qed

lemma zoneA_fields:
  "name zoneA = ''A''" "xyxy zoneA = (0, 0, 10, 10)" "maxlen zoneA = 3"
  "history zoneA = []" "count zoneA = 0"
  by (simp_all add: zoneA_def)

lemma Box_init_zoneA: "Box_init ''A'' (0, 0) (10, 10) 3 = Inr zoneA"
  by (simp add: Box_init_def zoneA_def)

lemma box_run_opsA: "box_run zoneA opsA = zoneA\<lparr>history := [1, 0, 2]\<rparr>"
  by code_simp

lemma Box_update_after_opsA:
  "Box_update (zoneA\<lparr>history := [1, 0, 2]\<rparr>) = zoneA\<lparr>history := [0, 2, 0]\<rparr>"
  by code_simp

theorem history_bounded_witness:
  "Box_init ''A'' (0, 0) (10, 10) 3 = Inr zoneA \<and> (1::int) \<le> 3 \<and>
   history (box_run zoneA opsA) = [1, 0, 2] \<and>
   history (Box_update (box_run zoneA opsA)) = [0, 2, 0] \<and>
   length (history (Box_update (box_run zoneA opsA))) \<le> nat 3"
  using history_bounded [of "''A''" "(0, 0)" "(10, 10)" 3 zoneA opsA]
  by (simp add: box_run_opsA Box_update_after_opsA Box_init_zoneA zoneA_fields)

subsection \<open>C8: the smoothing scenario\<close>

lemma Box_check_inside:
  "inside b p \<Longrightarrow> Box_check b (point p) = Inr (b\<lparr>count := count b + 1\<rparr>)"
  by (auto simp add: inside_def point_def Box_check_def tuple_handler_def split: prod.splits)

lemma checks_inside:
  "list_all (inside b) ps \<Longrightarrow>
     checks b (map point ps) = Inr (b\<lparr>count := count b + int (length ps)\<rparr>)"
proof (induction ps arbitrary: b)
  case Nil
  then show ?case by simp
next
  case (Cons p ps)
  let ?b' = "b\<lparr>count := count b + 1\<rparr>"
  have "inside ?b' = inside b" by (simp add: fun_eq_iff inside_def)
  with Cons.prems have "list_all (inside ?b') ps" by simp
  from Cons.IH [OF this] Cons.prems show ?case
    by (simp add: Box_check_inside add.assoc)
qed

lemma frame_inside:
  "list_all (inside b) ps \<Longrightarrow>
     frame b (map point ps) =
       Inr (b\<lparr>history := deque_append (maxlen b) (history b) (count b + int (length ps)),
              count := 0\<rparr>)"
  by (simp add: frame_def checks_inside Box_update_def)

text \<open>
  Claim C8 (scenario A): the zone with rectangle (0,0)-(10,10) and smoothness 3 is fed
  four frames, of 2, 4, 6 and 8 positions inside the rectangle, each frame being its
  \<^verbatim>\<open>check\<close> calls followed by one \<^verbatim>\<open>update\<close>. The histories after the four updates
  are [2], [2,4], [2,4,6], [4,6,8] and \<^verbatim>\<open>get_value\<close> returns 2, 3, 4, 6.
\<close>

theorem scenario_smoothing:
  assumes "list_all (inside zoneA) ps1" "length ps1 = 2"
      and "list_all (inside zoneA) ps2" "length ps2 = 4"
      and "list_all (inside zoneA) ps3" "length ps3 = 6"
      and "list_all (inside zoneA) ps4" "length ps4 = 8"
  shows "Box_init ''A'' (0, 0) (10, 10) 3 = Inr zoneA \<and>
         (\<exists>b1 b2 b3 b4.
            frame zoneA (map point ps1) = Inr b1 \<and> history b1 = [2] \<and> get_value b1 = Inr 2 \<and>
            frame b1 (map point ps2) = Inr b2 \<and> history b2 = [2, 4] \<and> get_value b2 = Inr 3 \<and>
            frame b2 (map point ps3) = Inr b3 \<and> history b3 = [2, 4, 6] \<and> get_value b3 = Inr 4 \<and>
            frame b3 (map point ps4) = Inr b4 \<and> history b4 = [4, 6, 8] \<and> get_value b4 = Inr 6)"
proof -
  define b1 where "b1 = zoneA\<lparr>history := [2], count := 0\<rparr>"
  define b2 where "b2 = zoneA\<lparr>history := [2, 4], count := 0\<rparr>"
  define b3 where "b3 = zoneA\<lparr>history := [2, 4, 6], count := 0\<rparr>"
  define b4 where "b4 = zoneA\<lparr>history := [4, 6, 8], count := 0\<rparr>"
  have i: "inside b1 = inside zoneA" "inside b2 = inside zoneA" "inside b3 = inside zoneA"
    by (simp_all add: fun_eq_iff inside_def b1_def b2_def b3_def)
  have f1: "frame zoneA (map point ps1) = Inr b1"
    using assms(1,2) by (simp add: frame_inside) (simp add: zoneA_def b1_def deque_append_def)
  have f2: "frame b1 (map point ps2) = Inr b2"
    using assms(3,4) i
    by (simp add: frame_inside) (simp add: zoneA_def b1_def b2_def deque_append_def)
  have f3: "frame b2 (map point ps3) = Inr b3"
    using assms(5,6) i
    by (simp add: frame_inside) (simp add: zoneA_def b2_def b3_def deque_append_def)
  have f4: "frame b3 (map point ps4) = Inr b4"
    using assms(7,8) i
    by (simp add: frame_inside) (simp add: zoneA_def b3_def b4_def deque_append_def)
  have h: "history b1 = [2]" "history b2 = [2, 4]" "history b3 = [2, 4, 6]"
    "history b4 = [4, 6, 8]"
    by (simp_all add: b1_def b2_def b3_def b4_def)
  have v: "get_value b1 = Inr 2" "get_value b2 = Inr 3" "get_value b3 = Inr 4"
    "get_value b4 = Inr 6"
    by (simp_all add: get_value_def np_mean_def h)
  have "Box_init ''A'' (0, 0) (10, 10) 3 = Inr zoneA"
    by (simp add: Box_init_def zoneA_def)
  with f1 f2 f3 f4 h v show ?thesis by blast
qed

theorem scenario_smoothing_witness:
  "list_all (inside zoneA) frame1 \<and> length frame1 = 2 \<and>
   list_all (inside zoneA) frame2 \<and> length frame2 = 4 \<and>
   list_all (inside zoneA) frame3 \<and> length frame3 = 6 \<and>
   list_all (inside zoneA) frame4 \<and> length frame4 = 8 \<and>
   (\<exists>b1 b2 b3 b4.
      frame zoneA (map point frame1) = Inr b1 \<and> history b1 = [2] \<and> get_value b1 = Inr 2 \<and>
      frame b1 (map point frame2) = Inr b2 \<and> history b2 = [2, 4] \<and> get_value b2 = Inr 3 \<and>
      frame b2 (map point frame3) = Inr b3 \<and> history b3 = [2, 4, 6] \<and> get_value b3 = Inr 4 \<and>
      frame b3 (map point frame4) = Inr b4 \<and> history b4 = [4, 6, 8] \<and> get_value b4 = Inr 6)"
proof -
  have i: "list_all (inside zoneA) frame1" "list_all (inside zoneA) frame2"
    "list_all (inside zoneA) frame3" "list_all (inside zoneA) frame4"
    by (simp_all add: inside_def zoneA_fields frame1_def frame2_def frame3_def frame4_def)
  have l: "length frame1 = 2" "length frame2 = 4" "length frame3 = 6" "length frame4 = 8"
    by (simp_all add: frame1_def frame2_def frame3_def frame4_def)
  from scenario_smoothing [OF i(1) l(1) i(2) l(2) i(3) l(3) i(4) l(4)] i l
  show ?thesis by simp
qed

section \<open>Properties of the zone set and its persistence scheduler\<close>

subsection \<open>What \<^verbatim>\<open>save\<close> does, case by case\<close>

lemma get_values_nonempty:
  "list_all nonempty_history bs \<Longrightarrow> get_values bs = Inr (map (\<lambda>b. truncated_mean (history b)) bs)"
  by (induction bs) (simp_all add: nonempty_history_def get_value_nonempty)

lemma get_values_Inr: "get_values bs = Inr vs \<Longrightarrow> list_all nonempty_history bs"
proof (induction bs arbitrary: vs)
  case Nil
  then show ?case by simp
next
  case (Cons b bs)
  then show ?case
    by (cases "history b = []")
      (auto simp add: nonempty_history_def get_value_empty split: sum.splits)
qed

lemma get_values_Inl: "get_values bs = Inl err \<Longrightarrow> err = ValueError \<and> \<not> list_all nonempty_history bs"
proof (induction bs)
  case Nil
  then show ?case by simp
next
  case (Cons b bs)
  then show ?case
    by (cases "history b = []")
      (auto simp add: nonempty_history_def get_value_empty get_value_nonempty split: sum.splits)
qed

lemma quotient_multiple_iff:
  fixes a f n :: int
  assumes "f \<noteq> 0" "n \<noteq> 0"
  shows "(real_of_int a / real_of_int f
            - real_of_int n * real_of_int \<lfloor>real_of_int a / real_of_int f / real_of_int n\<rfloor> = 0)
         \<longleftrightarrow> (f * n) dvd a"
proof
  assume "real_of_int a / real_of_int f
            - real_of_int n * real_of_int \<lfloor>real_of_int a / real_of_int f / real_of_int n\<rfloor> = 0"
  then obtain k :: int where "real_of_int a / real_of_int f = real_of_int n * real_of_int k"
    by auto
  then have "real_of_int a = real_of_int (f * n * k)"
    using assms by (simp add: field_simps)
  then have "a = f * n * k" by (simp only: of_int_eq_iff)
  then show "(f * n) dvd a" by simp
next
  assume "(f * n) dvd a"
  then obtain k where k: "a = f * n * k" by (auto simp add: dvd_def)
  have "real_of_int a / real_of_int f / real_of_int n = real_of_int k"
    using assms by (simp add: k)
  moreover have "real_of_int a / real_of_int f = real_of_int n * real_of_int k"
    using assms by (simp add: k)
  ultimately show "real_of_int a / real_of_int f
            - real_of_int n * real_of_int \<lfloor>real_of_int a / real_of_int f / real_of_int n\<rfloor> = 0"
    by simp
qed

lemma py_int_exact:
  assumes "f \<noteq> 0" "f dvd a"
  shows "py_int (Float (real_of_int a / real_of_int f)) = Inr (a div f)"
proof -
  from assms obtain k where k: "a = f * k" by (auto simp add: dvd_def)
  have "real_of_int a / real_of_int f = real_of_int k" using assms by (simp add: k)
  moreover have "a div f = k" using assms by (simp add: k)
  ultimately show ?thesis by simp
qed

lemma content_upd: "content (files(p \<mapsto> x)) p = x"
  by (simp add: content_def)

lemma save_unfold:
  assumes "time self = Some t" "save_conf self = Some c"
  shows "save e files self =
   (if fps c = 0 then (Some ZeroDivisionError, files, self)
    else if t = 0 then (None, files, self)
    else if interval c = 0 then (Some ZeroDivisionError, files, self)
    else if \<not> (fps c * interval c) dvd (t * speed c) then (None, files, self)
    else if \<not> open_ok e then (Some OSError, files, self)
    else (case get_values (boxes self) of
            Inl err \<Rightarrow> (Some err, files(save_path c \<mapsto> content files (save_path c)), self)
          | Inr vals \<Rightarrow>
              (None,
               files(save_path c \<mapsto> content files (save_path c) @ row_line (timestamp e c t) vals),
               if camera c then self\<lparr>time := Some 0\<rparr> else self)))"
proof (cases "fps c = 0")
  case True
  then show ?thesis using assms by (simp add: save_def truediv_def)
next
  case f: False
  define cur where "cur = real_of_int (t * speed c) / real_of_int (fps c)"
  have h1: "truediv (t * speed c) (fps c) = Inr cur"
    using f by (simp add: truediv_def cur_def)
  show ?thesis
  proof (cases "t = 0")
    case True
    then show ?thesis using assms f h1 by (simp add: save_def)
  next
    case t: False
    show ?thesis
    proof (cases "interval c = 0")
      case True
      then have "float_mod cur (interval c) = Inl ZeroDivisionError"
        by (simp add: float_mod_def)
      then show ?thesis using assms f t h1 True by (simp add: save_def)
    next
      case n: False
      define r where "r = cur - real_of_int (interval c) * real_of_int \<lfloor>cur / real_of_int (interval c)\<rfloor>"
      have h2: "float_mod cur (interval c) = Inr r"
        using n by (simp add: float_mod_def r_def)
      have h3: "r = 0 \<longleftrightarrow> (fps c * interval c) dvd (t * speed c)"
        unfolding r_def cur_def by (rule quotient_multiple_iff [OF f n])
      show ?thesis
      proof (cases "(fps c * interval c) dvd (t * speed c)")
        case False
        then show ?thesis using assms f t n h1 h2 h3 by (simp add: save_def)
      next
        case True
        then have "fps c dvd (t * speed c)" by (rule dvd_mult_left)
        from py_int_exact [OF f this]
        have h4: "py_int (Float cur) = Inr (t * speed c div fps c)"
          by (simp only: cur_def)
        show ?thesis using assms f t n h1 h2 h3 h4 True
          by (simp add: save_def timestamp_def content_upd Let_def split: sum.splits)
      qed
    qed
  qed
qed

lemma write_due_iff:
  assumes "fps c \<noteq> 0" "interval c \<noteq> 0"
  shows "write_due t c \<longleftrightarrow> t \<noteq> 0 \<and> (fps c * interval c) dvd (t * speed c)"
  using quotient_multiple_iff [OF assms, of "t * speed c"]
  by (simp add: write_due_def real_mod_def current_time_def)

lemma row_line_nonempty: "row_line st vals \<noteq> []"
  by (simp add: row_line_def)

lemma row_written_append: "row_written files (files(p \<mapsto> content files p @ r)) p \<longleftrightarrow> r \<noteq> []"
  by (auto simp add: row_written_def content_upd strict_prefix_def)

lemma row_written_same: "\<not> row_written files files p"
  by (simp add: row_written_def)

lemma row_written_touch: "\<not> row_written files (files(p \<mapsto> content files p)) p"
  by (simp add: row_written_def content_upd)

lemma save_time_zero: "time self = Some 0 \<Longrightarrow> fst (snd (save e files self)) = files"
proof (cases "save_conf self")
  case None
  then show ?thesis by (simp add: save_def split: option.splits)
next
  case (Some c)
  assume "time self = Some 0"
  from save_unfold [OF this Some] show ?thesis by simp
qed

lemma save_written_only_if:
  assumes "time self = Some t" "save_conf self = Some c"
    and "row_written files (fst (snd (save e files self))) (save_path c)"
  shows "fps c \<noteq> 0 \<and> interval c \<noteq> 0 \<and> t \<noteq> 0 \<and> (fps c * interval c) dvd (t * speed c) \<and>
         open_ok e \<and> list_all nonempty_history (boxes self) \<and> fst (save e files self) = None"
  using assms(3) get_values_Inr
  by (auto simp add: save_unfold [OF assms(1,2)] row_written_same row_written_touch
      split: if_splits sum.splits)

lemma save_written_if:
  assumes "time self = Some t" "save_conf self = Some c"
    and "fps c \<noteq> 0" "interval c \<noteq> 0" "t \<noteq> 0" "(fps c * interval c) dvd (t * speed c)"
    and "open_ok e" "list_all nonempty_history (boxes self)"
  shows "save e files self =
           (None,
            files(save_path c \<mapsto> content files (save_path c) @
               row_line (timestamp e c t) (map (\<lambda>b. truncated_mean (history b)) (boxes self))),
            if camera c then self\<lparr>time := Some 0\<rparr> else self)"
  using assms(3-7) by (simp add: save_unfold [OF assms(1,2)] get_values_nonempty [OF assms(8)])

subsection \<open>C3: when a row is written\<close>

text \<open>
  Claim C3: on a scheduler step (\<^verbatim>\<open>save\<close>) with \<open>elapsedFrames = t\<close> before the
  increment, a row is written if and only if \<open>t \<noteq> 0\<close> and
  \<open>(truncate(t \<times> speed) / fps) mod interval = 0\<close>; no row is ever written when \<open>t = 0\<close>.
  The first conjunct is the equivalence for a step whose write can succeed (a
  configuration in which the formula is defined, \<open>fps \<noteq> 0\<close> and \<open>interval \<noteq> 0\<close>, a file
  that opens, zones whose value exists). The second says that without any such
  condition a row is written only when it is due. The third is the case \<open>t = 0\<close>: the
  files are left as they were, whatever the configuration.
\<close>

theorem save_writes_iff_due:
  "(time self = Some t \<and> save_conf self = Some c \<and> fps c \<noteq> 0 \<and> interval c \<noteq> 0 \<and>
      open_ok e \<and> list_all nonempty_history (boxes self) \<longrightarrow>
      (row_written files (fst (snd (save e files self))) (save_path c) \<longleftrightarrow> write_due t c)) \<and>
   (time self = Some t \<and> save_conf self = Some c \<and>
      row_written files (fst (snd (save e files self))) (save_path c) \<longrightarrow>
      fps c \<noteq> 0 \<and> interval c \<noteq> 0 \<and> write_due t c) \<and>
   (time self = Some 0 \<longrightarrow> fst (snd (save e files self)) = files)"
proof -
  have A: "row_written files (fst (snd (save e files self))) (save_path c) \<longleftrightarrow> write_due t c"
    if a: "time self = Some t \<and> save_conf self = Some c \<and> fps c \<noteq> 0 \<and> interval c \<noteq> 0 \<and>
      open_ok e \<and> list_all nonempty_history (boxes self)"
  proof
    assume "row_written files (fst (snd (save e files self))) (save_path c)"
    with a save_written_only_if [of self t c files e] show "write_due t c"
      by (simp add: write_due_iff)
  next
    assume "write_due t c"
    with a have "t \<noteq> 0" "(fps c * interval c) dvd (t * speed c)"
      by (simp_all add: write_due_iff)
    with a save_written_if [of self t c e files]
    show "row_written files (fst (snd (save e files self))) (save_path c)"
      by (simp add: row_written_append row_line_nonempty)
  qed
  have B: "fps c \<noteq> 0 \<and> interval c \<noteq> 0 \<and> write_due t c"
    if "time self = Some t \<and> save_conf self = Some c \<and>
      row_written files (fst (snd (save e files self))) (save_path c)"
    using that save_written_only_if [of self t c files e] by (simp add: write_due_iff)
  have C: "fst (snd (save e files self)) = files" if "time self = Some 0"
    using that by (rule save_time_zero)
  from A B C show ?thesis by blast
qed


theorem save_writes_iff_due_witness:
  "time (tbB 20) = Some 20 \<and> save_conf (tbB 20) = Some confB \<and> fps confB \<noteq> 0 \<and>
   interval confB \<noteq> 0 \<and> open_ok envOK \<and> list_all nonempty_history (boxes (tbB 20)) \<and>
   write_due 20 confB \<and>
   row_written filesH (fst (snd (save envOK filesH (tbB 20)))) (save_path confB) \<and>
   time (tbB 21) = Some 21 \<and> save_conf (tbB 21) = Some confB \<and>
   list_all nonempty_history (boxes (tbB 21)) \<and> \<not> write_due 21 confB \<and>
   \<not> row_written filesH (fst (snd (save envOK filesH (tbB 21)))) (save_path confB) \<and>
   time (tbB 0) = Some 0 \<and> fst (snd (save envOK filesH (tbB 0))) = filesH"
  using save_writes_iff_due [where self = "tbB 20" and t = 20 and c = confB and e = envOK
      and files = filesH]
    save_writes_iff_due [where self = "tbB 21" and t = 21 and c = confB and e = envOK
      and files = filesH]
    save_writes_iff_due [where self = "tbB 0" and t = 0 and c = confB and e = envOK
      and files = filesH]
  by (simp add: tbB_def confB_def envOK_def nonempty_history_def zoneB_def write_due_def
      real_mod_def current_time_def)

subsection \<open>What \<^verbatim>\<open>update\<close> does when persistence is enabled\<close>

lemma save_state:
  assumes "time self = Some t" "save_conf self = Some c"
  shows "snd (snd (save e files self)) =
           (if camera c \<and> row_written files (fst (snd (save e files self))) (save_path c)
            then self\<lparr>time := Some 0\<rparr> else self)"
  by (simp add: save_unfold [OF assms] row_written_same row_written_touch row_written_append
      row_line_nonempty split: sum.splits)

lemma save_error_not_written:
  assumes "time self = Some t" "save_conf self = Some c" "fst (save e files self) \<noteq> None"
  shows "\<not> row_written files (fst (snd (save e files self))) (save_path c)"
  using assms(3)
  by (auto simp add: save_unfold [OF assms(1,2)] row_written_same row_written_touch
      split: sum.splits if_splits)

lemma TrackBox_update_unfold:
  assumes "time self = Some t" "save_conf self = Some c"
  shows "TrackBox_update e files self =
     (let self1 = self\<lparr>boxes := map Box_update (boxes self)\<rparr>;
          r = save e files self1;
          written = row_written files (fst (snd r)) (save_path c)
      in case fst r of
           Some err \<Rightarrow> (Some err, fst (snd r), self1)
         | None \<Rightarrow>
             (None, fst (snd r),
              self1\<lparr>time := Some ((if camera c \<and> written then 0 else t) + 1)\<rparr>))"
proof -
  define self1 where "self1 = self\<lparr>boxes := map Box_update (boxes self)\<rparr>"
  have s1: "time self1 = Some t" "save_conf self1 = Some c"
    using assms by (simp_all add: self1_def)
  obtain err f' s2 where r: "save e files self1 = (err, f', s2)"
    by (cases "save e files self1") auto
  have st: "s2 = (if camera c \<and> row_written files f' (save_path c)
                  then self1\<lparr>time := Some 0\<rparr> else self1)"
    using save_state [OF s1, of e files] r by simp
  have nw: "err \<noteq> None \<Longrightarrow> \<not> row_written files f' (save_path c)"
    using save_error_not_written [OF s1, of e files] r by simp
  show ?thesis
  proof (cases err)
    case None
    with r st s1 assms show ?thesis
      by (simp add: TrackBox_update_def self1_def [symmetric] Let_def)
  next
    case (Some x)
    with nw have "\<not> row_written files f' (save_path c)" by simp
    with Some r st s1 assms show ?thesis
      by (simp add: TrackBox_update_def self1_def [symmetric] Let_def)
  qed
qed

lemma Box_update_nonempty: "has_capacity b \<Longrightarrow> nonempty_history (Box_update b)"
  by (simp add: has_capacity_def nonempty_history_def Box_update_def deque_append_nonempty)

lemma Box_update_capacity: "has_capacity (Box_update b) = has_capacity b"
  by (simp add: has_capacity_def Box_update_def)

lemma updated_boxes_nonempty:
  "list_all has_capacity bs \<Longrightarrow> list_all nonempty_history (map Box_update bs)"
  by (induction bs) (simp_all add: Box_update_nonempty)

lemma updated_boxes_capacity:
  "list_all has_capacity (map Box_update bs) = list_all has_capacity bs"
  by (induction bs) (simp_all add: Box_update_capacity)

lemma TrackBox_update_due:
  assumes "time self = Some t" "save_conf self = Some c"
    and "fps c \<noteq> 0" "interval c \<noteq> 0" "t \<noteq> 0" "(fps c * interval c) dvd (t * speed c)"
    and "open_ok e" "list_all has_capacity (boxes self)"
  shows "TrackBox_update e files self =
           (None,
            files(save_path c \<mapsto> content files (save_path c) @
               row_line (timestamp e c t)
                 (map (\<lambda>b. truncated_mean (history (Box_update b))) (boxes self))),
            self\<lparr>boxes := map Box_update (boxes self),
                 time := Some ((if camera c then 0 else t) + 1)\<rparr>)"
proof -
  let ?self1 = "self\<lparr>boxes := map Box_update (boxes self)\<rparr>"
  have s1: "time ?self1 = Some t" "save_conf ?self1 = Some c"
    using assms(1,2) by simp_all
  have ne: "list_all nonempty_history (boxes ?self1)"
    using assms(8) by (simp add: updated_boxes_nonempty)
  from save_written_if [OF s1 assms(3-7) ne, of files] show ?thesis
    by (simp add: TrackBox_update_unfold [OF assms(1,2)] Let_def row_written_append
        row_line_nonempty comp_def)
qed

lemma TrackBox_update_not_due:
  assumes "time self = Some t" "save_conf self = Some c" and "fps c \<noteq> 0"
    and "t = 0 \<or> (interval c \<noteq> 0 \<and> \<not> (fps c * interval c) dvd (t * speed c))"
  shows "TrackBox_update e files self =
           (None, files, self\<lparr>boxes := map Box_update (boxes self), time := Some (t + 1)\<rparr>)"
proof -
  let ?self1 = "self\<lparr>boxes := map Box_update (boxes self)\<rparr>"
  have s1: "time ?self1 = Some t" "save_conf ?self1 = Some c"
    using assms(1,2) by simp_all
  have "save e files ?self1 = (None, files, ?self1)"
    using assms(3,4) by (auto simp add: save_unfold [OF s1])
  then show ?thesis
    by (simp add: TrackBox_update_unfold [OF assms(1,2)] Let_def row_written_same)
qed

lemma ticks_Nil: "ticks files self [] = (files, self)"
  by (simp add: ticks_def tb_run_def)

lemma ticks_Cons:
  "ticks files self (e # es) =
     ticks (fst (snd (TrackBox_update e files self))) (snd (snd (TrackBox_update e files self))) es"
  by (simp add: ticks_def tb_run_def)

lemma ticks_append:
  "ticks files self (es1 @ es2) =
     ticks (fst (ticks files self es1)) (snd (ticks files self es1)) es2"
  by (simp add: ticks_def tb_run_def)

lemma update_time_noncamera:
  assumes "time self = Some t" "save_conf self = Some c" "\<not> camera c"
  shows "save_conf (snd (snd (TrackBox_update e files self))) = Some c \<and>
         (time (snd (snd (TrackBox_update e files self))) = Some t \<or>
          time (snd (snd (TrackBox_update e files self))) = Some (t + 1))"
  using assms
  by (simp add: TrackBox_update_unfold [OF assms(1,2)] Let_def split: option.splits)

lemma ticks_noncamera_mono:
  assumes "time self = Some t" "save_conf self = Some c" "\<not> camera c"
  shows "\<exists>t'. time (snd (ticks files self es)) = Some t' \<and> t \<le> t' \<and>
               save_conf (snd (ticks files self es)) = Some c"
  using assms(1,2)
proof (induction es arbitrary: files self t)
  case Nil
  then show ?case by (simp add: ticks_Nil)
next
  case (Cons e es)
  let ?s = "snd (snd (TrackBox_update e files self))"
  let ?f = "fst (snd (TrackBox_update e files self))"
  from update_time_noncamera [OF Cons.prems assms(3), of e files]
  have c: "save_conf ?s = Some c" and t: "time ?s = Some t \<or> time ?s = Some (t + 1)"
    by simp_all
  from t show ?case
  proof
    assume "time ?s = Some t"
    from Cons.IH [OF this c, of ?f] show ?thesis by (simp add: ticks_Cons)
  next
    assume "time ?s = Some (t + 1)"
    from Cons.IH [OF this c, of ?f] show ?thesis by (auto simp add: ticks_Cons)
  qed
qed

subsection \<open>C4: the elapsed-frame counter\<close>

text \<open>
  Claim C4: once persistence is enabled, in camera mode \<open>elapsedFrames\<close> (\<^verbatim>\<open>time\<close>) is
  reset to 0 immediately after, and only after, a successful row write; in non-camera
  mode it never decreases over any sequence of \<^verbatim>\<open>update()\<close> ticks.
  In camera mode the scheduler step \<^verbatim>\<open>save\<close> ends with \<^verbatim>\<open>time\<close> at 0 when it has
  written a row and with \<^verbatim>\<open>time\<close> as it was in every other case (nothing due, or an
  exception), and the \<^verbatim>\<open>update\<close> around it then counts the tick, ending at 1 after
  a write, at \<open>t + 1\<close> after a step without one and at \<open>t\<close> when the step raised.
  In non-camera mode the values of \<^verbatim>\<open>time\<close> after any run of ticks and after any
  longer run are ordered, whatever the ticks meet (exceptions included).
\<close>

theorem elapsed_frames_reset_and_monotone:
  "(time self = Some t \<and> save_conf self = Some c \<and> camera c \<longrightarrow>
      time (snd (snd (save e files self))) =
        (if row_written files (fst (snd (save e files self))) (save_path c)
         then Some 0 else Some t) \<and>
      time (snd (snd (TrackBox_update e files self))) =
        (if row_written files (fst (snd (TrackBox_update e files self))) (save_path c)
         then Some 1
         else if fst (TrackBox_update e files self) = None then Some (t + 1) else Some t)) \<and>
   (time self = Some t \<and> save_conf self = Some c \<and> \<not> camera c \<longrightarrow>
      (\<exists>t1 t2. time (snd (ticks files self es1)) = Some t1 \<and>
               time (snd (ticks files self (es1 @ es2))) = Some t2 \<and> t \<le> t1 \<and> t1 \<le> t2))"
proof -
  have A: "time (snd (snd (save e files self))) =
        (if row_written files (fst (snd (save e files self))) (save_path c)
         then Some 0 else Some t)"
    if "time self = Some t \<and> save_conf self = Some c \<and> camera c"
    using that save_state [of self t c e files] by simp
  have B: "time (snd (snd (TrackBox_update e files self))) =
        (if row_written files (fst (snd (TrackBox_update e files self))) (save_path c)
         then Some 1
         else if fst (TrackBox_update e files self) = None then Some (t + 1) else Some t)"
    if h: "time self = Some t \<and> save_conf self = Some c \<and> camera c"
  proof -
    let ?self1 = "self\<lparr>boxes := map Box_update (boxes self)\<rparr>"
    have s1: "time ?self1 = Some t" "save_conf ?self1 = Some c"
      using h by simp_all
    from save_error_not_written [OF s1, of e files] h
    show ?thesis
      by (cases "fst (save e files ?self1)")
        (simp_all add: TrackBox_update_unfold [of self t c] Let_def)
  qed
  have C: "\<exists>t1 t2. time (snd (ticks files self es1)) = Some t1 \<and>
               time (snd (ticks files self (es1 @ es2))) = Some t2 \<and> t \<le> t1 \<and> t1 \<le> t2"
    if h: "time self = Some t \<and> save_conf self = Some c \<and> \<not> camera c"
  proof -
    from h ticks_noncamera_mono [of self t c files es1]
    obtain t1 where t1: "time (snd (ticks files self es1)) = Some t1" "t \<le> t1"
      "save_conf (snd (ticks files self es1)) = Some c" by auto
    from h ticks_noncamera_mono [OF t1(1) t1(3), of "fst (ticks files self es1)" es2]
    obtain t2 where "time (snd (ticks files self (es1 @ es2))) = Some t2" "t1 \<le> t2"
      by (auto simp add: ticks_append)
    with t1 show ?thesis by blast
  qed
  from A B C show ?thesis by blast
qed

theorem elapsed_frames_reset_and_monotone_witness:
  "time (tbC 20) = Some 20 \<and> save_conf (tbC 20) = Some confC \<and> camera confC \<and>
   row_written filesH (fst (snd (save envOK filesH (tbC 20)))) (save_path confC) \<and>
   time (snd (snd (save envOK filesH (tbC 20)))) = Some 0 \<and>
   time (snd (snd (TrackBox_update envOK filesH (tbC 20)))) = Some 1 \<and>
   \<not> row_written filesH (fst (snd (save envFail filesH (tbC 20)))) (save_path confC) \<and>
   time (snd (snd (save envFail filesH (tbC 20)))) = Some 20 \<and>
   time (snd (snd (TrackBox_update envFail filesH (tbC 20)))) = Some 20 \<and>
   time (tbB 19) = Some 19 \<and> save_conf (tbB 19) = Some confB \<and> \<not> camera confB \<and>
   (\<exists>t1 t2. time (snd (ticks filesH (tbB 19) [envOK, envFail])) = Some t1 \<and>
            time (snd (ticks filesH (tbB 19) ([envOK, envFail] @ [envOK]))) = Some t2 \<and>
            19 \<le> t1 \<and> t1 \<le> t2) \<and>
   time (snd (ticks filesH (tbB 19) [envOK, envFail])) = Some 20 \<and>
   time (snd (ticks filesH (tbB 19) ([envOK, envFail] @ [envOK]))) = Some 21"
proof -
  have h: "time (tbC 20) = Some 20" "save_conf (tbC 20) = Some confC" "camera confC"
    "time (tbB 19) = Some 19" "save_conf (tbB 19) = Some confB" "\<not> camera confB"
    by (simp_all add: tbC_def tbB_def confC_def confB_def)
  have w: "row_written filesH (fst (snd (save envOK filesH (tbC 20)))) (save_path confC)"
    "row_written filesH (fst (snd (TrackBox_update envOK filesH (tbC 20)))) (save_path confC)"
    "\<not> row_written filesH (fst (snd (save envFail filesH (tbC 20)))) (save_path confC)"
    "\<not> row_written filesH (fst (snd (TrackBox_update envFail filesH (tbC 20))))
         (save_path confC)"
    "fst (TrackBox_update envFail filesH (tbC 20)) = Some OSError"
    by code_simp+
  have r: "time (snd (ticks filesH (tbB 19) [envOK, envFail])) = Some 20"
    "time (snd (ticks filesH (tbB 19) ([envOK, envFail] @ [envOK]))) = Some 21"
    by code_simp+
  from elapsed_frames_reset_and_monotone [where self = "tbC 20" and t = 20 and c = confC
      and e = envOK and files = filesH]
    elapsed_frames_reset_and_monotone [where self = "tbC 20" and t = 20 and c = confC
      and e = envFail and files = filesH]
    elapsed_frames_reset_and_monotone [where self = "tbB 19" and t = 19 and c = confB
      and files = filesH and ?es1.0 = "[envOK, envFail]" and ?es2.0 = "[envOK]"]
  show ?thesis
    using h w r by simp
qed



subsection \<open>Ticks that succeed\<close>

lemma TrackBox_update_ok:
  assumes "time self = Some t" "save_conf self = Some c"
    and "fps c \<noteq> 0" "interval c \<noteq> 0" "open_ok e" "list_all has_capacity (boxes self)"
  shows "fst (TrackBox_update e files self) = None \<and>
         snd (snd (TrackBox_update e files self)) =
           self\<lparr>boxes := map Box_update (boxes self),
                time := Some ((if camera c \<and> t \<noteq> 0 \<and> (fps c * interval c) dvd (t * speed c)
                               then 0 else t) + 1)\<rparr>"
proof (cases "t \<noteq> 0 \<and> (fps c * interval c) dvd (t * speed c)")
  case True
  then have "t \<noteq> 0" "(fps c * interval c) dvd (t * speed c)" by simp_all
  from TrackBox_update_due [OF assms(1-4) this assms(5,6), of files] True
  show ?thesis by simp
next
  case False
  then have "t = 0 \<or> (interval c \<noteq> 0 \<and> \<not> (fps c * interval c) dvd (t * speed c))"
    using assms(4) by blast
  from TrackBox_update_not_due [OF assms(1-3) this, of e files] False
  show ?thesis by auto
qed

lemma ticks_count:
  assumes "save_conf self = Some c" "fps c \<noteq> 0" "interval c \<noteq> 0" "\<not> camera c"
    and "time self = Some t" "list_all has_capacity (boxes self)" "list_all open_ok es"
  shows "time (snd (ticks files self es)) = Some (t + int (length es)) \<and>
         save_conf (snd (ticks files self es)) = Some c"
  using assms(1,5,6,7)
proof (induction es arbitrary: files self t)
  case Nil
  then show ?case by (simp add: ticks_Nil)
next
  case (Cons e es)
  let ?s = "snd (snd (TrackBox_update e files self))"
  let ?f = "fst (snd (TrackBox_update e files self))"
  from Cons.prems have ok: "open_ok e" "list_all open_ok es" by simp_all
  from TrackBox_update_ok [OF Cons.prems(2,1) assms(2,3) ok(1) Cons.prems(3), of files] assms(4)
  have s: "?s = self\<lparr>boxes := map Box_update (boxes self), time := Some (t + 1)\<rparr>"
    by simp
  have "save_conf ?s = Some c" "time ?s = Some (t + 1)" "list_all has_capacity (boxes ?s)"
    using Cons.prems by (simp_all add: s updated_boxes_capacity)
  from Cons.IH [OF this ok(2), of ?f] show ?case
    by (simp add: ticks_Cons)
qed

subsection \<open>C5: the timing scenario\<close>

text \<open>
  Claim C5 (scenario B): with persistence enabled as fps = 10, speed = 1, interval = 2,
  no camera, and one scheduler tick per \<^verbatim>\<open>update()\<close>, a row is written exactly at
  the ticks whose \<open>elapsedFrames\<close> before the increment is 20, 40, 60, \<dots>, and the
  timestamp field of those rows is 2, 4, 6, \<dots>
  First conjunct: \<^verbatim>\<open>config_save\<close> with these arguments stores this configuration,
  and after \<open>n\<close> ticks \<open>elapsedFrames\<close> is \<open>n\<close>. Second conjunct: a tick at
  \<open>elapsedFrames = t \<ge> 0\<close> returns normally and counts one frame; it appends a row iff
  \<open>t = 20k\<close> for some \<open>k \<ge> 1\<close>, and that row is \<open>2k\<close>, a comma and the zones' values.
  The ticks are those of a run in which the file opens and every zone can hold a
  history entry.
\<close>

theorem scenario_persistence_timing:
  "(config_save e0 files0 self0 p 2 10 1 False = (None, files1, self1) \<and>
      list_all has_capacity (boxes self0) \<and> list_all open_ok es \<longrightarrow>
      save_conf self1 = Some (scenario_conf p) \<and>
      save_conf (snd (ticks files1 self1 es)) = Some (scenario_conf p) \<and>
      time (snd (ticks files1 self1 es)) = Some (int (length es))) \<and>
   (save_conf self = Some (scenario_conf p) \<and> time self = Some t \<and> 0 \<le> t \<and>
      open_ok e \<and> list_all has_capacity (boxes self) \<longrightarrow>
      fst (TrackBox_update e files self) = None \<and>
      time (snd (snd (TrackBox_update e files self))) = Some (t + 1) \<and>
      (row_written files (fst (snd (TrackBox_update e files self))) p
         \<longleftrightarrow> (\<exists>k\<ge>1. t = 20 * k)) \<and>
      (\<forall>k. 1 \<le> k \<and> t = 20 * k \<longrightarrow>
         fst (snd (TrackBox_update e files self)) =
           files(p \<mapsto> content files p @
             row_line (str_int (2 * k))
               (map (\<lambda>b. truncated_mean (history (Box_update b))) (boxes self)))))"
proof -
  have c: "fps (scenario_conf p) \<noteq> 0" "interval (scenario_conf p) \<noteq> 0"
    "\<not> camera (scenario_conf p)" "save_path (scenario_conf p) = p"
    "speed (scenario_conf p) = 1" "fps (scenario_conf p) = 10" "interval (scenario_conf p) = 2"
    by (simp_all add: scenario_conf_def)
  have A: "save_conf self1 = Some (scenario_conf p) \<and>
      save_conf (snd (ticks files1 self1 es)) = Some (scenario_conf p) \<and>
      time (snd (ticks files1 self1 es)) = Some (int (length es))"
    if h: "config_save e0 files0 self0 p 2 10 1 False = (None, files1, self1) \<and>
      list_all has_capacity (boxes self0) \<and> list_all open_ok es"
  proof -
    from h have s1: "save_conf self1 = Some (scenario_conf p)" "time self1 = Some 0"
      "boxes self1 = boxes self0"
      by (auto simp add: config_save_def scenario_conf_def split: if_splits)
    with h have cap: "list_all has_capacity (boxes self1)" by simp
    from h ticks_count [OF s1(1) c(1,2,3) s1(2) cap, of es files1] s1(1)
    show ?thesis by simp
  qed
  have B: "fst (TrackBox_update e files self) = None \<and>
      time (snd (snd (TrackBox_update e files self))) = Some (t + 1) \<and>
      (row_written files (fst (snd (TrackBox_update e files self))) p
         \<longleftrightarrow> (\<exists>k\<ge>1. t = 20 * k)) \<and>
      (\<forall>k. 1 \<le> k \<and> t = 20 * k \<longrightarrow>
         fst (snd (TrackBox_update e files self)) =
           files(p \<mapsto> content files p @
             row_line (str_int (2 * k))
               (map (\<lambda>b. truncated_mean (history (Box_update b))) (boxes self))))"
    if h: "save_conf self = Some (scenario_conf p) \<and> time self = Some t \<and> 0 \<le> t \<and>
      open_ok e \<and> list_all has_capacity (boxes self)"
  proof -
    from h have s: "time self = Some t" "save_conf self = Some (scenario_conf p)"
      "open_ok e" "list_all has_capacity (boxes self)" and t0: "0 \<le> t" by simp_all
    from TrackBox_update_ok [OF s(1,2) c(1,2) s(3,4), of files] c(3)
    have ok: "fst (TrackBox_update e files self) = None"
      "time (snd (snd (TrackBox_update e files self))) = Some (t + 1)"
      by simp_all
    have dvd: "(fps (scenario_conf p) * interval (scenario_conf p)) dvd
                 (t * speed (scenario_conf p)) \<longleftrightarrow> 20 dvd t"
      by (simp add: c)
    show ?thesis
    proof (cases "t \<noteq> 0 \<and> 20 dvd t")
      case True
      then obtain k where k: "t = 20 * k" by (auto simp add: dvd_def)
      with True t0 have k1: "1 \<le> k" by simp
      have due: "t \<noteq> 0" "(fps (scenario_conf p) * interval (scenario_conf p)) dvd
                 (t * speed (scenario_conf p))"
        using True dvd by simp_all
      have ts: "timestamp e (scenario_conf p) t = str_int (2 * k)"
        by (simp add: timestamp_def c k)
      note u = TrackBox_update_due [OF s(1,2) c(1,2) due s(3,4), of files]
      have "row_written files (fst (snd (TrackBox_update e files self))) p"
        by (simp add: u c row_written_append row_line_nonempty)
      moreover have "fst (snd (TrackBox_update e files self)) =
           files(p \<mapsto> content files p @
             row_line (str_int (2 * k))
               (map (\<lambda>b. truncated_mean (history (Box_update b))) (boxes self)))"
        by (simp add: u c ts)
      moreover have "\<exists>k\<ge>1. t = 20 * k" using k k1 by blast
      moreover have "k' = k" if "t = 20 * k'" for k' using that k by simp
      ultimately show ?thesis using ok by auto
    next
      case False
      then have nd: "t = 0 \<or> (interval (scenario_conf p) \<noteq> 0 \<and>
          \<not> (fps (scenario_conf p) * interval (scenario_conf p)) dvd
                 (t * speed (scenario_conf p)))"
        using dvd c(2) by blast
      note u = TrackBox_update_not_due [OF s(1,2) c(1) nd, of e files]
      have "\<not> row_written files (fst (snd (TrackBox_update e files self))) p"
        by (simp add: u row_written_same)
      moreover have "\<not> (\<exists>k\<ge>1. t = 20 * k)" using False by auto
      ultimately show ?thesis using ok by auto
    qed
  qed
  from A B show ?thesis by blast
qed


theorem scenario_persistence_timing_witness:
  "config_save envOK Map.empty tbNew ''out.csv'' 2 10 1 False =
     (None, Map.empty(''out.csv'' \<mapsto> header_line False [zoneA, zoneB]),
      tbNew\<lparr>time := Some 0, save_conf := Some (scenario_conf ''out.csv'')\<rparr>) \<and>
   list_all has_capacity (boxes tbNew) \<and> list_all open_ok [envOK, envOK, envOK] \<and>
   time (snd (ticks (Map.empty(''out.csv'' \<mapsto> header_line False [zoneA, zoneB]))
     (tbNew\<lparr>time := Some 0, save_conf := Some (scenario_conf ''out.csv'')\<rparr>)
     [envOK, envOK, envOK])) = Some (int (length [envOK, envOK, envOK])) \<and>
   save_conf (tbB 20) = Some (scenario_conf ''out.csv'') \<and> time (tbB 20) = Some 20 \<and>
   (0::int) \<le> 20 \<and> open_ok envOK \<and> list_all has_capacity (boxes (tbB 20)) \<and>
   (1::int) \<le> 1 \<and> (20::int) = 20 * 1 \<and>
   fst (TrackBox_update envOK filesH (tbB 20)) = None \<and>
   time (snd (snd (TrackBox_update envOK filesH (tbB 20)))) = Some (20 + 1) \<and>
   row_written filesH (fst (snd (TrackBox_update envOK filesH (tbB 20)))) ''out.csv'' \<and>
   fst (snd (TrackBox_update envOK filesH (tbB 20))) =
     filesH(''out.csv'' \<mapsto> content filesH ''out.csv'' @
       row_line (str_int (2 * 1))
         (map (\<lambda>b. truncated_mean (history (Box_update b))) (boxes (tbB 20)))) \<and>
   fst (snd (TrackBox_update envOK filesH (tbB 20))) ''out.csv'' =
     Some ''second,B\<newline>2,3\<newline>'' \<and>
   fst (snd (TrackBox_update envOK filesH (tbB 40))) ''out.csv'' =
     Some ''second,B\<newline>4,3\<newline>'' \<and>
   \<not> row_written filesH (fst (snd (TrackBox_update envOK filesH (tbB 30)))) ''out.csv''"
proof -
  have sc: "scenario_conf ''out.csv'' = confB"
    by (simp add: scenario_conf_def confB_def)
  have h1: "config_save envOK Map.empty tbNew ''out.csv'' 2 10 1 False =
     (None, Map.empty(''out.csv'' \<mapsto> header_line False [zoneA, zoneB]),
      tbNew\<lparr>time := Some 0, save_conf := Some (scenario_conf ''out.csv'')\<rparr>)"
    by (simp add: config_save_def envOK_def tbNew_def scenario_conf_def)
  have h2: "list_all has_capacity (boxes tbNew)" "list_all open_ok [envOK, envOK, envOK]"
    "list_all has_capacity (boxes (tbB 20))" "open_ok envOK"
    "save_conf (tbB 20) = Some (scenario_conf ''out.csv'')" "time (tbB 20) = Some 20"
    "save_conf (tbB 30) = Some (scenario_conf ''out.csv'')" "time (tbB 30) = Some 30"
    "list_all has_capacity (boxes (tbB 30))"
    by (simp_all add: tbNew_def tbB_def has_capacity_def zoneA_def zoneB_def envOK_def sc)
  have h3: "fst (snd (TrackBox_update envOK filesH (tbB 20))) ''out.csv'' =
     Some ''second,B\<newline>2,3\<newline>''"
    "fst (snd (TrackBox_update envOK filesH (tbB 40))) ''out.csv'' =
     Some ''second,B\<newline>4,3\<newline>''"
    by code_simp+
  have h4: "\<not> (\<exists>k\<ge>1. (30::int) = 20 * k)" by presburger
  note T20 = scenario_persistence_timing [where ?e0.0 = envOK and ?files0.0 = Map.empty
      and ?self0.0 = tbNew and p = "''out.csv''"
      and ?files1.0 = "Map.empty(''out.csv'' \<mapsto> header_line False [zoneA, zoneB])"
      and ?self1.0 = "tbNew\<lparr>time := Some 0, save_conf := Some (scenario_conf ''out.csv'')\<rparr>"
      and es = "[envOK, envOK, envOK]" and self = "tbB 20" and t = 20 and e = envOK
      and files = filesH]
  note T30 = scenario_persistence_timing [where ?e0.0 = envOK and ?files0.0 = Map.empty
      and ?self0.0 = tbNew and p = "''out.csv''"
      and ?files1.0 = "Map.empty(''out.csv'' \<mapsto> header_line False [zoneA, zoneB])"
      and ?self1.0 = "tbNew\<lparr>time := Some 0, save_conf := Some (scenario_conf ''out.csv'')\<rparr>"
      and es = "[envOK, envOK, envOK]" and self = "tbB 30" and t = 30 and e = envOK
      and files = filesH]
  have z: "(0::int) \<le> 20" "(0::int) \<le> 30" "(1::int) \<le> 1" "(20::int) = 20 * 1" by simp_all
  from T20 h1 h2 have A:
    "time (snd (ticks (Map.empty(''out.csv'' \<mapsto> header_line False [zoneA, zoneB]))
     (tbNew\<lparr>time := Some 0, save_conf := Some (scenario_conf ''out.csv'')\<rparr>)
     [envOK, envOK, envOK])) = Some (int (length [envOK, envOK, envOK]))"
    by blast
  from T20 h2 z have B:
    "fst (TrackBox_update envOK filesH (tbB 20)) = None"
    "time (snd (snd (TrackBox_update envOK filesH (tbB 20)))) = Some (20 + 1)"
    "row_written filesH (fst (snd (TrackBox_update envOK filesH (tbB 20)))) ''out.csv''
       \<longleftrightarrow> (\<exists>k\<ge>1. (20::int) = 20 * k)"
    "\<forall>k. 1 \<le> k \<and> (20::int) = 20 * k \<longrightarrow>
       fst (snd (TrackBox_update envOK filesH (tbB 20))) =
         filesH(''out.csv'' \<mapsto> content filesH ''out.csv'' @
           row_line (str_int (2 * k))
             (map (\<lambda>b. truncated_mean (history (Box_update b))) (boxes (tbB 20))))"
    by blast+
  from z have "\<exists>k\<ge>1. (20::int) = 20 * k" by blast
  with B(3) have W:
    "row_written filesH (fst (snd (TrackBox_update envOK filesH (tbB 20)))) ''out.csv''"
    by blast
  from B(4) z have F: "fst (snd (TrackBox_update envOK filesH (tbB 20))) =
     filesH(''out.csv'' \<mapsto> content filesH ''out.csv'' @
       row_line (str_int (2 * 1))
         (map (\<lambda>b. truncated_mean (history (Box_update b))) (boxes (tbB 20))))"
    by blast
  from T30 h2 z have
    "row_written filesH (fst (snd (TrackBox_update envOK filesH (tbB 30)))) ''out.csv''
       \<longleftrightarrow> (\<exists>k\<ge>1. (30::int) = 20 * k)"
    by blast
  with h4 have N:
    "\<not> row_written filesH (fst (snd (TrackBox_update envOK filesH (tbB 30)))) ''out.csv''"
    by blast
  from h1 h2 z A B(1,2) W F h3 N show ?thesis by blast
qed



subsection \<open>C2: enabling persistence with a non-positive interval or fps\<close>

text \<open>
  Claim C2 says that enabling persistence with \<open>intervalSeconds \<le> 0\<close> or \<open>fps \<le> 0\<close>
  fails with InvalidPersistenceConfig and leaves persistence disabled. It fails on the
  code: \<^verbatim>\<open>config_save\<close> checks none of its arguments. On a fresh \<^verbatim>\<open>TrackBox\<close>, with
  an interval of 0 (and again with an fps of 0), the call returns normally, the header
  is in the file and the configuration is stored.
\<close>

theorem config_save_invalid_counterexample:
  "save_conf tbNew = None \<and>
   fst (config_save envOK Map.empty tbNew ''out.csv'' 0 10 1 False) = None \<and>
   save_conf (snd (snd (config_save envOK Map.empty tbNew ''out.csv'' 0 10 1 False))) =
     Some \<lparr>save_path = ''out.csv'', interval = 0, fps = 10, speed = 1, camera = False\<rparr> \<and>
   fst (snd (config_save envOK Map.empty tbNew ''out.csv'' 0 10 1 False)) ''out.csv'' =
     Some ''second,A,B\<newline>'' \<and>
   fst (config_save envOK Map.empty tbNew ''out.csv'' 2 0 1 False) = None \<and>
   save_conf (snd (snd (config_save envOK Map.empty tbNew ''out.csv'' 2 0 1 False))) =
     Some \<lparr>save_path = ''out.csv'', interval = 2, fps = 0, speed = 1, camera = False\<rparr>"
  by (simp add: config_save_def envOK_def tbNew_def header_line_def zoneA_def zoneB_def)

text \<open>
  C2 as amended: \<^verbatim>\<open>config_save\<close> does not validate the interval or the fps. For every
  call with \<open>intervalSeconds \<le> 0\<close> or \<open>fps \<le> 0\<close>, if the destination opens the call
  returns normally, the file holds the header alone, and the configuration is stored as
  given (speed clamped to at least 1) with \<^verbatim>\<open>time = 0\<close>; if the destination does not
  open the call raises OSError and neither the files nor the object change.
\<close>

theorem config_save_no_validation:
  assumes "intvl \<le> 0 \<or> fps' \<le> 0"
  shows "config_save e files self path intvl fps' speed' cam =
           (if open_ok e
            then (None,
                  files(path \<mapsto> header_line cam (boxes self)),
                  self\<lparr>time := Some 0,
                       save_conf := Some \<lparr>save_path = path, interval = intvl, fps = fps',
                                          speed = max 1 speed', camera = cam\<rparr>\<rparr>)
            else (Some OSError, files, self))"
  by (simp add: config_save_def)

theorem config_save_no_validation_witness:
  "((0::int) \<le> 0 \<or> (10::int) \<le> 0) \<and> open_ok envOK \<and>
   config_save envOK Map.empty tbNew ''out.csv'' 0 10 (- 3) True =
     (None,
      Map.empty(''out.csv'' \<mapsto> header_line True (boxes tbNew)),
      tbNew\<lparr>time := Some 0,
            save_conf := Some \<lparr>save_path = ''out.csv'', interval = 0, fps = 10,
                               speed = 1, camera = True\<rparr>\<rparr>) \<and>
   \<not> open_ok envFail \<and>
   config_save envFail Map.empty tbNew ''out.csv'' 0 10 (- 3) True =
     (Some OSError, Map.empty, tbNew)"
  using config_save_no_validation [of 0 10 envOK Map.empty tbNew "''out.csv''" "- 3" True]
    config_save_no_validation [of 0 10 envFail Map.empty tbNew "''out.csv''" "- 3" True]
  by (simp add: envOK_def envFail_def)

text \<open>Where such a configuration surfaces: the scheduler step divides by the fps
  at once, and takes the remainder by the interval as soon as \<^verbatim>\<open>time\<close> is not 0.\<close>

lemma save_zero_fps:
  "time self = Some t \<Longrightarrow> save_conf self = Some c \<Longrightarrow> fps c = 0 \<Longrightarrow>
     save e files self = (Some ZeroDivisionError, files, self)"
  by (simp add: save_unfold)

lemma save_zero_interval:
  "time self = Some t \<Longrightarrow> save_conf self = Some c \<Longrightarrow> fps c \<noteq> 0 \<Longrightarrow> interval c = 0 \<Longrightarrow>
     save e files self = (if t = 0 then (None, files, self)
                          else (Some ZeroDivisionError, files, self))"
  by (simp add: save_unfold)



subsection \<open>Only \<^verbatim>\<open>config_save\<close> truncates\<close>

lemma content_upd_other: "content (files(q \<mapsto> x)) p = (if p = q then x else content files p)"
  by (simp add: content_def)

lemma save_appends: "prefix (content files p) (content (fst (snd (save e files self))) p)"
proof (cases "time self")
  case None
  then show ?thesis by (simp add: save_def)
next
  case (Some t)
  show ?thesis
  proof (cases "save_conf self")
    case None
    with Some show ?thesis by (simp add: save_def)
  next
    case (Some c)
    from save_unfold [OF \<open>time self = Some t\<close> Some, of e files] show ?thesis
      by (simp add: content_upd_other split: sum.splits)
  qed
qed

lemma TrackBox_update_files:
  "fst (snd (TrackBox_update e files self)) = files \<or>
   fst (snd (TrackBox_update e files self)) =
     fst (snd (save e files (self\<lparr>boxes := map Box_update (boxes self)\<rparr>)))"
  by (simp add: TrackBox_update_def Let_def split: option.splits prod.splits)

lemma TrackBox_update_appends:
  "prefix (content files p) (content (fst (snd (TrackBox_update e files self))) p)"
  using TrackBox_update_files [of e files self]
    save_appends [of files p e "self\<lparr>boxes := map Box_update (boxes self)\<rparr>"]
  by auto

lemma tb_step_appends:
  "\<not> is_config_save call \<Longrightarrow>
     prefix (content (fst st) p) (content (fst (tb_step st call)) p)"
proof (cases st; cases call)
  fix files self e op
  assume "\<not> is_config_save call" and "st = (files, self)" and "call = (e, op)"
  then show ?thesis
    by (cases op) (simp_all add: is_config_save_def save_appends TrackBox_update_appends)
qed

lemma tb_run_Cons: "tb_run files self (call # calls) =
     tb_run (fst (tb_step (files, self) call)) (snd (tb_step (files, self) call)) calls"
  by (simp add: tb_run_def)

lemma tb_run_appends:
  "\<not> list_ex is_config_save calls \<Longrightarrow>
     prefix (content files p) (content (fst (tb_run files self calls)) p)"
proof (induction calls arbitrary: files self)
  case Nil
  then show ?case by (simp add: tb_run_def)
next
  case (Cons call calls)
  then have 1: "\<not> is_config_save call" and 2: "\<not> list_ex is_config_save calls" by simp_all
  let ?st = "tb_step (files, self) call"
  from tb_step_appends [OF 1, of "(files, self)" p]
  have "prefix (content files p) (content (fst ?st) p)" by simp
  moreover from Cons.IH [OF 2, of "fst ?st" "snd ?st"]
  have "prefix (content (fst ?st) p) (content (fst (tb_run files self (call # calls))) p)"
    by (simp add: tb_run_Cons)
  ultimately show ?case by (rule prefix_order.trans)
qed

subsection \<open>C6: enabling persistence twice\<close>

text \<open>
  Claim C6 says that the enable operation succeeds at most once, a second call failing
  with AlreadyEnabled, so that the destination is truncated and its header written
  exactly once. It fails on the code: \<^verbatim>\<open>config_save\<close> does not look at the state.
  Persistence is enabled on a fresh \<^verbatim>\<open>TrackBox\<close>; 21 ticks later the file holds the
  header and one row; \<^verbatim>\<open>config_save\<close> is called again and returns normally, the file
  holds the header alone (the row is gone) and \<^verbatim>\<open>time\<close> is back at 0.
\<close>

theorem config_save_twice_counterexample:
  "fst enabled1 = None \<and>
   save_conf (snd (snd enabled1)) = Some confB \<and>
   fst ran21 ''out.csv'' = Some ''second,A,B\<newline>2,0,0\<newline>'' \<and>
   save_conf (snd ran21) = Some confB \<and> time (snd ran21) = Some 21 \<and>
   fst enabled2 = None \<and>
   fst (snd enabled2) ''out.csv'' = Some ''second,A,B\<newline>'' \<and>
   time (snd (snd enabled2)) = Some 0"
  by code_simp

text \<open>
  C6 as amended: \<^verbatim>\<open>config_save\<close> has no AlreadyEnabled guard. Called on a
  \<^verbatim>\<open>TrackBox\<close> whose persistence is already enabled, it returns normally whenever the
  destination opens: it truncates the destination to the header alone, stores the new
  configuration and resets \<^verbatim>\<open>time\<close> to 0. The header is written by \<^verbatim>\<open>config_save\<close>
  only: over any sequence of \<^verbatim>\<open>check\<close>, \<^verbatim>\<open>update\<close> and \<^verbatim>\<open>save\<close> calls every file
  is only appended to (its old content stays a prefix of the new one).
\<close>

theorem config_save_repeatable:
  "(save_conf self = Some c0 \<and> open_ok e \<longrightarrow>
      config_save e files self path intvl fps' speed' cam =
        (None,
         files(path \<mapsto> header_line cam (boxes self)),
         self\<lparr>time := Some 0,
              save_conf := Some \<lparr>save_path = path, interval = intvl, fps = fps',
                                 speed = max 1 speed', camera = cam\<rparr>\<rparr>)) \<and>
   (\<not> list_ex is_config_save calls \<longrightarrow>
      prefix (content files p) (content (fst (tb_run files self calls)) p))"
  by (simp add: config_save_def tb_run_appends)

theorem config_save_repeatable_witness:
  "save_conf (snd ran21) = Some confB \<and> open_ok envOK \<and>
   enabled2 =
     (None,
      (fst ran21)(''out.csv'' \<mapsto> header_line False (boxes (snd ran21))),
      (snd ran21)\<lparr>time := Some 0,
              save_conf := Some \<lparr>save_path = ''out.csv'', interval = 2, fps = 10,
                                 speed = max 1 1, camera = False\<rparr>\<rparr>) \<and>
   \<not> list_ex is_config_save [(envOK, Update), (envOK, Check (PInt 6)), (envOK, Save)] \<and>
   prefix (content filesH ''out.csv'')
     (content (fst (tb_run filesH (tbB 20)
        [(envOK, Update), (envOK, Check (PInt 6)), (envOK, Save)])) ''out.csv'') \<and>
   content (fst (tb_run filesH (tbB 20)
        [(envOK, Update), (envOK, Check (PInt 6)), (envOK, Save)])) ''out.csv'' =
     ''second,B\<newline>2,3\<newline>''"
proof -
  have h: "save_conf (snd ran21) = Some confB" by code_simp
  have o: "open_ok envOK" by (simp add: envOK_def)
  have n: "\<not> list_ex is_config_save [(envOK, Update), (envOK, Check (PInt 6)), (envOK, Save)]"
    by (simp add: is_config_save_def)
  have v: "content (fst (tb_run filesH (tbB 20)
        [(envOK, Update), (envOK, Check (PInt 6)), (envOK, Save)])) ''out.csv'' =
     ''second,B\<newline>2,3\<newline>''"
    by code_simp
  from config_save_repeatable [where self = "snd ran21" and ?c0.0 = confB and e = envOK
      and files = "fst ran21" and path = "''out.csv''" and intvl = 2 and fps' = 10
      and speed' = 1 and cam = False
      and calls = "[(envOK, Update), (envOK, Check (PInt 6)), (envOK, Save)]" and p = "''out.csv''"]
    config_save_repeatable [where self = "tbB 20" and files = filesH
      and calls = "[(envOK, Update), (envOK, Check (PInt 6)), (envOK, Save)]" and p = "''out.csv''"]
    h o n v
  show ?thesis by (simp add: enabled2_def)
qed



subsection \<open>The invariant of the reachable states\<close>

lemma new_all_capacity:
  "list_all (\<lambda>c. 1 \<le> smoothness c) entries \<Longrightarrow> new_all entries = Inr bs \<Longrightarrow>
     list_all has_capacity bs"
proof (induction entries arbitrary: bs)
  case Nil
  then show ?case by simp
next
  case (Cons c cs)
  then show ?case
    by (auto simp add: new_def Box_init_def has_capacity_def split: sum.splits if_splits)
qed

lemma TrackBox_init_inv:
  "list_all (\<lambda>c. 1 \<le> smoothness c) entries \<Longrightarrow> TrackBox_init entries = Inr tb0 \<Longrightarrow>
     tb_inv tb0"
  by (auto simp add: TrackBox_init_def tb_inv_def new_all_capacity split: sum.splits)

lemma Box_check_keeps:
  "Box_check b pos = Inr b' \<Longrightarrow>
     has_capacity b' = has_capacity b \<and> nonempty_history b' = nonempty_history b"
  by (auto simp add: has_capacity_def nonempty_history_def dest!: Box_check_cases)

lemma check_boxes_keeps:
  "list_all has_capacity (snd (check_boxes bs pos)) = list_all has_capacity bs \<and>
   list_all nonempty_history (snd (check_boxes bs pos)) = list_all nonempty_history bs"
proof (induction bs)
  case Nil
  then show ?case by simp
next
  case (Cons b bs)
  then show ?case
    by (auto simp add: Box_check_keeps split: sum.splits prod.splits)
qed

lemma TrackBox_check_inv: "tb_inv self \<Longrightarrow> tb_inv (snd (TrackBox_check self pos))"
  using check_boxes_keeps [of "boxes self" pos]
  by (auto simp add: tb_inv_def TrackBox_check_def split: prod.splits option.splits)

lemma config_save_inv:
  "tb_inv self \<Longrightarrow> tb_inv (snd (snd (config_save e files self path intvl fps' speed' cam)))"
  by (auto simp add: tb_inv_def config_save_def split: option.splits)

lemma save_inv: "tb_inv self \<Longrightarrow> tb_inv (snd (snd (save e files self)))"
proof (cases "time self")
  case None
  then show "tb_inv self \<Longrightarrow> ?thesis" by (simp add: save_def)
next
  case (Some t)
  assume inv: "tb_inv self"
  with Some obtain c where c: "save_conf self = Some c" by (auto simp add: tb_inv_def)
  from save_state [OF Some c, of e files] inv Some c show ?thesis
    by (auto simp add: tb_inv_def split: if_splits)
qed

lemma TrackBox_update_inv: "tb_inv self \<Longrightarrow> tb_inv (snd (snd (TrackBox_update e files self)))"
proof (cases "time self")
  case None
  assume "tb_inv self"
  with None show ?thesis
    by (simp add: tb_inv_def TrackBox_update_def updated_boxes_capacity)
next
  case (Some t)
  assume inv: "tb_inv self"
  with Some obtain c where c: "save_conf self = Some c" by (auto simp add: tb_inv_def)
  from inv have cap: "list_all has_capacity (boxes self)" and t: "0 \<le> t"
    using Some by (simp_all add: tb_inv_def)
  from cap have ne: "list_all nonempty_history (map Box_update (boxes self))"
    by (rule updated_boxes_nonempty)
  show ?thesis
    using cap t ne Some c
    by (simp add: TrackBox_update_unfold [OF Some c] Let_def tb_inv_def updated_boxes_capacity
        split: option.splits)
qed

lemma tb_step_inv: "tb_inv (snd st) \<Longrightarrow> tb_inv (snd (tb_step st call))"
proof (cases st; cases call)
  fix files self e op
  assume "tb_inv (snd st)" and "st = (files, self)" and "call = (e, op)"
  then show ?thesis
    by (cases op)
      (simp_all add: TrackBox_check_inv TrackBox_update_inv config_save_inv save_inv)
qed

lemma tb_run_inv: "tb_inv self \<Longrightarrow> tb_inv (snd (tb_run files self calls))"
proof (induction calls arbitrary: files self)
  case Nil
  then show ?case by (simp add: tb_run_def)
next
  case (Cons call calls)
  from tb_step_inv [of "(files, self)" call] Cons.prems
  have "tb_inv (snd (tb_step (files, self) call))" by simp
  from Cons.IH [OF this] show ?case by (simp add: tb_run_Cons)
qed

lemma save_no_ValueError:
  assumes "tb_inv self"
  shows "fst (save e files self) \<noteq> Some ValueError"
proof (cases "time self")
  case None
  then show ?thesis by (simp add: save_def)
next
  case (Some t)
  with assms obtain c where c: "save_conf self = Some c" by (auto simp add: tb_inv_def)
  from assms Some have t: "0 \<le> t" and ne: "0 < t \<Longrightarrow> list_all nonempty_history (boxes self)"
    by (simp_all add: tb_inv_def)
  show ?thesis
  proof (cases "t = 0")
    case True
    then show ?thesis by (simp add: save_unfold [OF Some c])
  next
    case False
    with t ne have "list_all nonempty_history (boxes self)" by simp
    then show ?thesis
      by (simp add: save_unfold [OF Some c] get_values_nonempty)
  qed
qed

lemma TrackBox_update_no_ValueError:
  assumes "tb_inv self"
  shows "fst (TrackBox_update e files self) \<noteq> Some ValueError"
proof (cases "time self")
  case None
  with assms show ?thesis by (simp add: tb_inv_def TrackBox_update_def)
next
  case (Some t)
  with assms obtain c where c: "save_conf self = Some c" by (auto simp add: tb_inv_def)
  let ?self1 = "self\<lparr>boxes := map Box_update (boxes self)\<rparr>"
  from assms have "list_all has_capacity (boxes self)" by (simp add: tb_inv_def)
  then have "tb_inv ?self1" using assms Some
    by (simp add: tb_inv_def updated_boxes_capacity updated_boxes_nonempty)
  from save_no_ValueError [OF this, of e files] show ?thesis
    by (auto simp add: TrackBox_update_unfold [OF Some c] Let_def split: option.splits)
qed

lemma save_written_path:
  assumes "row_written files (fst (snd (save e files self))) p"
  shows "list_all nonempty_history (boxes self)"
proof (cases "time self")
  case None
  with assms show ?thesis by (simp add: save_def row_written_same)
next
  case (Some t)
  show ?thesis
  proof (cases "save_conf self")
    case None
    with Some assms show ?thesis by (simp add: save_def row_written_same)
  next
    case c: (Some c)
    show ?thesis
    proof (cases "p = save_path c")
      case True
      with assms save_written_only_if [OF Some c, of files e] show ?thesis by simp
    next
      case False
      have "content (fst (snd (save e files self))) p = content files p"
        using False by (simp add: save_unfold [OF Some c] content_upd_other split: sum.splits)
      with assms show ?thesis by (simp add: row_written_def)
    qed
  qed
qed

lemma nonempty_values:
  "list_all nonempty_history bs \<Longrightarrow>
     \<forall>b\<in>set bs. history b \<noteq> [] \<and> get_value b = Inr (truncated_mean (history b))"
  by (auto simp add: list_all_iff nonempty_history_def get_value_nonempty)

subsection \<open>C10: a written row never meets an empty history\<close>

text \<open>
  Claim C10 says that in every reachable state, whenever the scheduler step writes a
  data row, every zone's history is non-empty, because \<^verbatim>\<open>update\<close> appends to every
  history before the step, so that the empty-history case never arises on the
  persistence path. It fails on the code: \<^verbatim>\<open>Box.__init__\<close> accepts a smoothness of 0,
  the deque of such a zone has \<^verbatim>\<open>maxlen = 0\<close> and \<^verbatim>\<open>append\<close> leaves it empty. The
  constructor builds one such zone; the client enables persistence, checks a position
  and ticks 20 times. In the state reached \<^verbatim>\<open>time\<close> is 20 and the history is still
  empty: the scheduler step, which is due, meets the empty history and raises
  ValueError without writing a row, and so does the next \<^verbatim>\<open>update\<close>.
\<close>

theorem zero_smoothness_counterexample:
  "TrackBox_init entriesZero = Inr tbZero \<and>
   time (snd reachedZero) = Some 20 \<and>
   save_conf (snd reachedZero) = Some confB \<and>
   list_all (\<lambda>b. history b = []) (boxes (snd reachedZero)) \<and>
   fst (save envOK (fst reachedZero) (snd reachedZero)) = Some ValueError \<and>
   \<not> row_written (fst reachedZero)
        (fst (snd (save envOK (fst reachedZero) (snd reachedZero)))) ''out.csv'' \<and>
   fst (TrackBox_update envOK (fst reachedZero) (snd reachedZero)) = Some ValueError"
proof -
  have a: "TrackBox_init entriesZero = Inr tbZero"
    by (simp add: TrackBox_init_def entriesZero_def tbZero_def new_def Box_init_def)
  have b: "time (snd reachedZero) = Some 20"
    "save_conf (snd reachedZero) = Some confB"
    "list_all (\<lambda>b. history b = []) (boxes (snd reachedZero))"
    "fst (save envOK (fst reachedZero) (snd reachedZero)) = Some ValueError"
    "\<not> row_written (fst reachedZero)
        (fst (snd (save envOK (fst reachedZero) (snd reachedZero)))) ''out.csv''"
    "fst (TrackBox_update envOK (fst reachedZero) (snd reachedZero)) = Some ValueError"
    by code_simp+
  from a b show ?thesis by blast
qed

text \<open>
  C10 as amended: in every state reachable from a \<^verbatim>\<open>TrackBox\<close> whose zones were all
  constructed with smoothness at least 1, the empty-history case never arises on the
  persistence path, and whenever the scheduler step writes a data row every zone's
  history is non-empty and each \<^verbatim>\<open>get_value\<close> evaluated for the row is the truncated
  mean of a non-empty sequence.
  The reachable states are those a client reaches from the constructor by any sequence
  of \<^verbatim>\<open>check\<close>, \<^verbatim>\<open>update\<close>, \<^verbatim>\<open>config_save\<close> and \<^verbatim>\<open>save\<close> calls, failed calls
  included. In such a state neither \<^verbatim>\<open>save\<close> nor \<^verbatim>\<open>update\<close> raises ValueError, and
  when either writes a row every zone it reads has a history with an entry and a value
  that is its truncated mean.
\<close>

theorem written_rows_have_histories:
  assumes "TrackBox_init entries = Inr tb0"
    and "list_all (\<lambda>c. 1 \<le> smoothness c) entries"
    and "tb_run files0 tb0 calls = (files, self)"
  shows "fst (save e files self) \<noteq> Some ValueError \<and>
         fst (TrackBox_update e files self) \<noteq> Some ValueError \<and>
         (row_written files (fst (snd (save e files self))) p \<longrightarrow>
            (\<forall>b\<in>set (boxes self).
               history b \<noteq> [] \<and> get_value b = Inr (truncated_mean (history b)))) \<and>
         (row_written files (fst (snd (TrackBox_update e files self))) p \<longrightarrow>
            (\<forall>b\<in>set (boxes (snd (snd (TrackBox_update e files self)))).
               history b \<noteq> [] \<and> get_value b = Inr (truncated_mean (history b))))"
proof -
  from TrackBox_init_inv [OF assms(2,1)] have "tb_inv tb0" .
  from tb_run_inv [OF this, of files0 calls] assms(3) have inv: "tb_inv self" by simp
  have A: "\<forall>b\<in>set (boxes self).
               history b \<noteq> [] \<and> get_value b = Inr (truncated_mean (history b))"
    if "row_written files (fst (snd (save e files self))) p"
    using save_written_path [OF that] by (rule nonempty_values)
  have B: "\<forall>b\<in>set (boxes (snd (snd (TrackBox_update e files self)))).
               history b \<noteq> [] \<and> get_value b = Inr (truncated_mean (history b))"
    if w: "row_written files (fst (snd (TrackBox_update e files self))) p"
  proof -
    let ?self1 = "self\<lparr>boxes := map Box_update (boxes self)\<rparr>"
    from w TrackBox_update_files [of e files self]
    have "row_written files (fst (snd (save e files ?self1))) p"
      by (auto simp add: row_written_same)
    from save_written_path [OF this]
    have ne: "list_all nonempty_history (map Box_update (boxes self))" by simp
    have "boxes (snd (snd (TrackBox_update e files self))) = map Box_update (boxes self)"
    proof (cases "time self")
      case None
      with inv show ?thesis by (simp add: tb_inv_def TrackBox_update_def)
    next
      case (Some t)
      with inv obtain c where c: "save_conf self = Some c" by (auto simp add: tb_inv_def)
      show ?thesis
        by (simp add: TrackBox_update_unfold [OF Some c] Let_def split: option.splits)
    qed
    with nonempty_values [OF ne] show ?thesis by simp
  qed
  from save_no_ValueError [OF inv] TrackBox_update_no_ValueError [OF inv] A B
  show ?thesis by blast
qed


theorem written_rows_have_histories_witness:
  "TrackBox_init entriesAB = Inr tbInit \<and>
   list_all (\<lambda>c. 1 \<le> smoothness c) entriesAB \<and>
   tb_run Map.empty tbInit callsAB = (fst reachedAB, snd reachedAB) \<and>
   time (snd reachedAB) = Some 20 \<and>
   fst (save envOK (fst reachedAB) (snd reachedAB)) \<noteq> Some ValueError \<and>
   fst (TrackBox_update envOK (fst reachedAB) (snd reachedAB)) \<noteq> Some ValueError \<and>
   row_written (fst reachedAB) (fst (snd (save envOK (fst reachedAB) (snd reachedAB))))
     ''out.csv'' \<and>
   list_all (\<lambda>b. history b \<noteq> [] \<and> get_value b = Inr (truncated_mean (history b)))
     (boxes (snd reachedAB)) \<and>
   row_written (fst reachedAB)
     (fst (snd (TrackBox_update envOK (fst reachedAB) (snd reachedAB)))) ''out.csv'' \<and>
   list_all (\<lambda>b. history b \<noteq> [] \<and> get_value b = Inr (truncated_mean (history b)))
     (boxes (snd (snd (TrackBox_update envOK (fst reachedAB) (snd reachedAB)))))"
proof -
  have h1: "TrackBox_init entriesAB = Inr tbInit"
    by (simp add: TrackBox_init_def entriesAB_def tbInit_def new_def Box_init_def)
  have h2: "list_all (\<lambda>c. 1 \<le> smoothness c) entriesAB"
    by (simp add: entriesAB_def)
  have h3: "tb_run Map.empty tbInit callsAB = (fst reachedAB, snd reachedAB)"
    by (simp add: reachedAB_def)
  have t: "time (snd reachedAB) = Some 20"
    by code_simp
  have w: "row_written (fst reachedAB)
       (fst (snd (save envOK (fst reachedAB) (snd reachedAB)))) ''out.csv''"
    "row_written (fst reachedAB)
       (fst (snd (TrackBox_update envOK (fst reachedAB) (snd reachedAB)))) ''out.csv''"
    by code_simp+
  from written_rows_have_histories [OF h1 h2 h3, of envOK "''out.csv''"] w h1 h2 h3 t
  show ?thesis by (simp add: list_all_iff)
qed

end
